theory Spec2Isabelle
  imports Main
begin

section \<open>The notification server (app.js) as a state machine\<close>

text \<open>
  The server keeps two in-memory maps (\<open>httpLimits\<close>, \<open>socketRateLimits\<close>), the
  Socket.IO room membership and a MySQL database with the tables \<open>notifications\<close> and
  \<open>connection_logs\<close>. Every handler of app.js becomes a function from the state to
  a list of observable effects (in the order the handler performs them) and the new
  state. The clock (\<open>Date.now()\<close>, \<open>NOW()\<close>) is a parameter of each handler, in
  milliseconds; so is the outcome of each database statement the handler awaits
  (\<open>True\<close>: the statement succeeds, \<open>False\<close>: \<open>pool.query\<close> rejects).
  Identities, socket ids and messages are strings, a string being a list of characters
  below U+0100; a request field is absent or a string (what the libraries do with other
  JSON values is not in the sources and is left open). In a run (\<open>step\<close>, \<open>run\<close>
  below) a handler goes from its start to its end before the next one starts; the
  connection handler is given in its two parts, before and after its \<open>await\<close>, so
  that connections can also be interleaved there. A promise rejection that nobody
  handles is an effect of the model (Node's default ends the process on it); the
  model's runs go on after it, so they include the runs of the code up to that point.
  One server instance is modelled: the Redis adapter, connection state recovery,
  info-level logging, helmet, CORS (which answers \<open>OPTIONS\<close> requests itself) and the
  JSON body parser are left out.
\<close>

type_synonym time = int
type_synonym field = "string option"

subsection \<open>config.js\<close>

record config =
  http_window :: int
  http_max :: int
  socket_points :: int
  socket_duration :: int
  webhook_api_key :: "string option"

text \<open>The defaults of config.js: 15 minutes, 100 requests, 10 points, 60 seconds.\<close>

definition default_config :: "string option \<Rightarrow> config" where
  "default_config k =
     \<lparr>http_window = 15, http_max = 100, socket_points = 10, socket_duration = 60,
      webhook_api_key = k\<rparr>"

subsection \<open>Rate limiters\<close>

record http_limit =
  hl_count :: int
  hl_resetTime :: time

record socket_limit =
  sl_timestamp :: time
  sl_count :: int

text \<open>
  What a limiter does with a request: \<open>next()\<close>, the HTTP 429 reply with its
  \<open>error\<close> and \<open>retryAfter\<close> fields, or \<open>next(new Error(msg))\<close>.
\<close>

datatype verdict = Next | TooMany429 string int | NextError string

definition too_many :: string where
  "too_many = ''Too many requests, please try again later''"

text \<open>\<open>Math.ceil(x / 1000)\<close> on an integer \<open>x\<close>.\<close>

definition ceil_div1000 :: "int \<Rightarrow> int" where
  "ceil_div1000 x = - ((- x) div 1000)"

definition httpRateLimiter ::
  "config \<Rightarrow> time \<Rightarrow> string \<Rightarrow> (string \<rightharpoonup> http_limit) \<Rightarrow> verdict \<times> (string \<rightharpoonup> http_limit)" where
  "httpRateLimiter cfg now ip httpLimits =
     (let windowMs = http_window cfg * 60 * 1000;
          maxRequests = http_max cfg
      in case httpLimits ip of
           None \<Rightarrow> (Next, httpLimits(ip \<mapsto> \<lparr>hl_count = 1, hl_resetTime = now + windowMs\<rparr>))
         | Some userLimit \<Rightarrow>
             if now > hl_resetTime userLimit
             then (Next, httpLimits(ip \<mapsto> \<lparr>hl_count = 1, hl_resetTime = now + windowMs\<rparr>))
             else if hl_count userLimit \<ge> maxRequests
             then (TooMany429 too_many (ceil_div1000 (hl_resetTime userLimit - now)), httpLimits)
             else (Next, httpLimits(ip \<mapsto> userLimit\<lparr>hl_count := hl_count userLimit + 1\<rparr>)))"

text \<open>The key of the socket limiter: \<open>socket.handshake.auth?.userId || socket.id\<close>.\<close>

definition falsy :: "field \<Rightarrow> bool" where
  "falsy v = (case v of None \<Rightarrow> True | Some s \<Rightarrow> s = [])"

definition socket_key :: "field \<Rightarrow> string \<Rightarrow> string" where
  "socket_key auth_userId sid = (case auth_userId of None \<Rightarrow> sid | Some u \<Rightarrow> if u = [] then sid else u)"

definition socketRateLimiter ::
  "config \<Rightarrow> time \<Rightarrow> string \<Rightarrow> (string \<rightharpoonup> socket_limit) \<Rightarrow> verdict \<times> (string \<rightharpoonup> socket_limit)" where
  "socketRateLimiter cfg currentTime userId socketRateLimits =
     (case socketRateLimits userId of
        None \<Rightarrow> (Next, socketRateLimits(userId \<mapsto> \<lparr>sl_timestamp = currentTime, sl_count = 1\<rparr>))
      | Some userLimit \<Rightarrow>
          (let timeWindow = socket_duration cfg * 1000;
               limit = socket_points cfg
           in if currentTime - sl_timestamp userLimit > timeWindow
              then (Next, socketRateLimits(userId \<mapsto> \<lparr>sl_timestamp = currentTime, sl_count = 1\<rparr>))
              else if sl_count userLimit \<ge> limit
              then (NextError too_many, socketRateLimits)
              else (Next, socketRateLimits(userId \<mapsto> userLimit\<lparr>sl_count := sl_count userLimit + 1\<rparr>))))"

text \<open>A run of one key's requests through a limiter, at the given times.\<close>

fun http_run :: "config \<Rightarrow> string \<Rightarrow> time list \<Rightarrow> (string \<rightharpoonup> http_limit) \<Rightarrow> verdict list" where
  "http_run cfg ip [] m = []"
| "http_run cfg ip (t # ts) m =
     (case httpRateLimiter cfg t ip m of (v, m') \<Rightarrow> v # http_run cfg ip ts m')"

fun socket_run :: "config \<Rightarrow> string \<Rightarrow> time list \<Rightarrow> (string \<rightharpoonup> socket_limit) \<Rightarrow> verdict list" where
  "socket_run cfg k [] m = []"
| "socket_run cfg k (t # ts) m =
     (case socketRateLimiter cfg t k m of (v, m') \<Rightarrow> v # socket_run cfg k ts m')"

definition retryAfter :: "verdict \<Rightarrow> int option" where
  "retryAfter v = (case v of TooMany429 e r \<Rightarrow> Some r | _ \<Rightarrow> None)"

subsection \<open>The database\<close>

text \<open>
  The rows of the two tables. The migration that creates the tables is not among the
  sources: the columns are those the statements of app.js name (\<open>id\<close>,
  \<open>sender_id\<close>, \<open>recipient_id\<close>, \<open>message\<close>, \<open>socket_id\<close>, \<open>delivered_at\<close>;
  \<open>socket_id\<close>, \<open>disconnected_at\<close>) and the remaining ones of the spec's persisted
  schema. A table is the list of its rows in insertion order, and a \<open>SELECT\<close> without
  \<open>ORDER BY\<close> returns the matching rows in that order.
\<close>

record notification =
  n_id :: nat
  n_sender_id :: string
  n_recipient_id :: string
  n_message :: string
  n_socket_id :: "string option"
  n_created_at :: time
  n_delivered_at :: "time option"

record connection_log =
  cl_socket_id :: string
  cl_user_id :: string
  cl_connected_at :: time
  cl_disconnected_at :: "time option"

record database =
  notifications :: "notification list"
  connection_logs :: "connection_log list"
  next_id :: nat

text \<open>\<open>SELECT * FROM notifications WHERE recipient_id = ? AND delivered_at IS NULL\<close>\<close>

definition select_undelivered :: "string \<Rightarrow> database \<Rightarrow> notification list" where
  "select_undelivered uid d =
     filter (\<lambda>n. n_recipient_id n = uid \<and> n_delivered_at n = None) (notifications d)"

text \<open>\<open>UPDATE notifications SET delivered_at = NOW() WHERE id = ?\<close>\<close>

definition update_delivered :: "nat \<Rightarrow> time \<Rightarrow> database \<Rightarrow> database" where
  "update_delivered i now d =
     d\<lparr>notifications :=
          map (\<lambda>n. if n_id n = i then n\<lparr>n_delivered_at := Some now\<rparr> else n) (notifications d)\<rparr>"

text \<open>
  Modelled from the spec: the declaration of the table \<open>notifications\<close> is missing from
  the sources. The statement is
  \<open>INSERT INTO notifications (sender_id, recipient_id, message, socket_id) VALUES (?, ?, ?, ?)\<close>
  (the webhook leaves \<open>socket_id\<close> out). By the persisted schema of the spec,
  \<open>notifications(id, sender_id, recipient_id, message, socket_id NULL, created_at,
  delivered_at NULL)\<close>, the columns the statement does not name are the identifier of
  the row (here the next value of a counter, as AUTO_INCREMENT gives it), the creation
  time and an absent delivery time.
\<close>

definition insert_notification ::
  "string \<Rightarrow> string \<Rightarrow> string \<Rightarrow> string option \<Rightarrow> time \<Rightarrow> database \<Rightarrow> database" where
  "insert_notification sender recipient msg sock now d =
     d\<lparr>notifications := notifications d @
          [\<lparr>n_id = next_id d, n_sender_id = sender, n_recipient_id = recipient,
            n_message = msg, n_socket_id = sock, n_created_at = now, n_delivered_at = None\<rparr>],
       next_id := Suc (next_id d)\<rparr>"

text \<open>\<open>UPDATE connection_logs SET disconnected_at = NOW() WHERE socket_id = ?\<close>\<close>

definition update_connection_log :: "string \<Rightarrow> time \<Rightarrow> database \<Rightarrow> database" where
  "update_connection_log sid now d =
     d\<lparr>connection_logs :=
          map (\<lambda>c. if cl_socket_id c = sid then c\<lparr>cl_disconnected_at := Some now\<rparr> else c)
            (connection_logs d)\<rparr>"

subsection \<open>State and effects\<close>

record state =
  httpLimits :: "string \<rightharpoonup> http_limit"
  socketRateLimits :: "string \<rightharpoonup> socket_limit"
  db :: database
  rooms :: "(string \<times> string) list"

definition empty_db :: database where
  "empty_db = \<lparr>notifications = [], connection_logs = [], next_id = 1\<rparr>"

definition init :: state where
  "init = \<lparr>httpLimits = Map.empty, socketRateLimits = Map.empty, db = empty_db, rooms = []\<rparr>"

datatype sql =
    SelectUndelivered string
  | UpdateDelivered nat
  | InsertNotification string string string "string option"
  | UpdateConnectionLog string

record payload =
  p_message :: string
  p_senderId :: string
  p_timestamp :: time

datatype ack = AckSuccess | AckError string

datatype http_body =
    BodySuccess
  | BodyError string
  | BodyErrors "string list"
  | BodyTooMany string int
  | BodyHealth
  | BodyNotFound

text \<open>
  What a handler does that can be seen from outside, in the order it does it:
  \<open>Join sid room\<close> is \<open>socket.join(room)\<close>; \<open>SocketEmit sid row\<close> is
  \<open>socket.emit("new_notification", row)\<close> on the socket \<open>sid\<close>;
  \<open>RoomEmit room p sids\<close> is \<open>io.to(room).emit("new_notification", p)\<close>, with the
  sockets that are in the room at that moment; \<open>Query q\<close> is a statement handed to
  \<open>pool.query\<close>; \<open>Callback a\<close> is the acknowledgement of a \<open>send_notification\<close>
  request; \<open>Respond status body\<close> is the HTTP response; \<open>ConnectError sid msg\<close> is a
  handshake refused by a middleware; \<open>UnhandledRejection\<close> is a promise rejected
  with no handler.
\<close>

datatype effect =
    Join string string
  | SocketEmit string notification
  | RoomEmit string payload "string list"
  | Query sql
  | LoggerError string
  | Callback ack
  | Respond nat http_body
  | ConnectError string string
  | UnhandledRejection

text \<open>The room of a user: \<open>`user_${id}`\<close>.\<close>

definition room :: "string \<Rightarrow> string" where
  "room uid = ''user_'' @ uid"

definition members :: "string \<Rightarrow> (string \<times> string) list \<Rightarrow> string list" where
  "members r rs = map fst (filter (\<lambda>p. snd p = r) rs)"

subsection \<open>Socket.IO middleware and handlers\<close>

text \<open>
  The authentication middleware. \<open>jwt.verify\<close> is a parameter: it gives the
  \<open>id\<close> of the decoded token, or nothing when verification fails.
\<close>

definition auth_middleware :: "(string \<Rightarrow> string option) \<Rightarrow> field \<Rightarrow> string + string" where
  "auth_middleware verify token =
     (if falsy token then Inl ''Authentication error''
      else case verify (case token of None \<Rightarrow> [] | Some t \<Rightarrow> t) of
             None \<Rightarrow> Inl ''Authentication failed''
           | Some uid \<Rightarrow> Inr uid)"

text \<open>
  The \<open>forEach\<close> of the connection handler over the rows the \<open>SELECT\<close> returned:
  each row is emitted to the socket and its \<open>UPDATE\<close> is issued (not awaited);
  \<open>upd_ok i\<close> says whether the \<open>UPDATE\<close> of row \<open>i\<close> succeeds. The loop works on the
  rows as the \<open>SELECT\<close> returned them, whatever the table holds by now.
\<close>

fun replay :: "string \<Rightarrow> time \<Rightarrow> (nat \<Rightarrow> bool) \<Rightarrow> notification list \<Rightarrow> database \<Rightarrow> effect list \<times> database" where
  "replay sid now upd_ok [] d = ([], d)"
| "replay sid now upd_ok (n # ns) d =
     (case replay sid now upd_ok ns
             (if upd_ok (n_id n) then update_delivered (n_id n) now d else d) of
        (es, d') \<Rightarrow> (SocketEmit sid n # Query (UpdateDelivered (n_id n)) # es, d'))"

text \<open>
  \<open>io.on("connection", ...)\<close> for the socket \<open>sid\<close> of the user \<open>uid\<close>, up to its
  \<open>await\<close>: the socket joins the user's room and the \<open>SELECT\<close> is issued. Its result
  is the rows it returns on the table as it is now, or nothing when it is rejected.
\<close>

definition connection_select ::
  "string \<Rightarrow> string \<Rightarrow> bool \<Rightarrow> state \<Rightarrow> effect list \<times> notification list option \<times> state" where
  "connection_select sid uid sel_ok s =
     (let s1 = s\<lparr>rooms := rooms s @ [(sid, room uid)]\<rparr>
      in ([Join sid (room uid), Query (SelectUndelivered uid)],
          if sel_ok then Some (select_undelivered uid (db s1)) else None,
          s1))"

text \<open>
  The rest of the connection handler, once the \<open>SELECT\<close> has answered: the loop over the
  rows, or the \<open>catch\<close>. An \<open>UPDATE\<close> that is rejected is a rejection nobody handles.
\<close>

definition rejections :: "(nat \<Rightarrow> bool) \<Rightarrow> notification list \<Rightarrow> effect list" where
  "rejections upd_ok rows = map (\<lambda>n. UnhandledRejection) (filter (\<lambda>n. \<not> upd_ok (n_id n)) rows)"

definition connection_resume ::
  "string \<Rightarrow> time \<Rightarrow> (nat \<Rightarrow> bool) \<Rightarrow> notification list option \<Rightarrow> state \<Rightarrow> effect list \<times> state" where
  "connection_resume sid now upd_ok result s =
     (case result of
        None \<Rightarrow> ([LoggerError ''Notification delivery error:''], s)
      | Some undelivered \<Rightarrow>
          (case replay sid now upd_ok undelivered (db s) of
             (es, d') \<Rightarrow> (es @ rejections upd_ok undelivered, s\<lparr>db := d'\<rparr>)))"

text \<open>The connection handler with nothing running between its two parts.\<close>

definition on_connection ::
  "string \<Rightarrow> string \<Rightarrow> time \<Rightarrow> bool \<Rightarrow> (nat \<Rightarrow> bool) \<Rightarrow> state \<Rightarrow> effect list \<times> state" where
  "on_connection sid uid now sel_ok upd_ok s =
     (case connection_select sid uid sel_ok s of
        (es1, result, s1) \<Rightarrow>
          (case connection_resume sid now upd_ok result s1 of
             (es2, s2) \<Rightarrow> (es1 @ es2, s2)))"

record handshake =
  hs_socket_id :: string
  hs_token :: field
  hs_userId :: field

text \<open>A connection attempt: the two \<open>io.use\<close> middlewares, then the connection handler.\<close>

definition io_connect ::
  "config \<Rightarrow> (string \<Rightarrow> string option) \<Rightarrow> handshake \<Rightarrow> time \<Rightarrow> bool \<Rightarrow> (nat \<Rightarrow> bool) \<Rightarrow> state
     \<Rightarrow> effect list \<times> state" where
  "io_connect cfg verify hs now sel_ok upd_ok s =
     (case auth_middleware verify (hs_token hs) of
        Inl msg \<Rightarrow> ([ConnectError (hs_socket_id hs) msg], s)
      | Inr uid \<Rightarrow>
          (case socketRateLimiter cfg now (socket_key (hs_userId hs) (hs_socket_id hs))
                  (socketRateLimits s) of
             (NextError msg, lim) \<Rightarrow>
               ([ConnectError (hs_socket_id hs) msg], s\<lparr>socketRateLimits := lim\<rparr>)
           | (_, lim) \<Rightarrow>
               on_connection (hs_socket_id hs) uid now sel_ok upd_ok (s\<lparr>socketRateLimits := lim\<rparr>)))"

record send_data =
  sd_recipientId :: field
  sd_message :: field

text \<open>
  \<open>socket.on("send_notification", ...)\<close> on the socket \<open>sid\<close> of the user \<open>uid\<close>,
  for a request that brings an acknowledgement function. \<open>data\<close> is \<open>None\<close> when the client sent no object (the destructuring throws
  and the \<open>catch\<close> answers).
\<close>

definition send_notification ::
  "string \<Rightarrow> string \<Rightarrow> time \<Rightarrow> bool \<Rightarrow> send_data option \<Rightarrow> state \<Rightarrow> effect list \<times> state" where
  "send_notification sid uid now ins_ok data s =
     (case data of
        None \<Rightarrow> ([LoggerError ''Notification error:'', Callback (AckError ''Internal server error'')], s)
      | Some dt \<Rightarrow>
          if falsy (sd_recipientId dt) \<or> falsy (sd_message dt)
          then ([Callback (AckError ''Missing required fields'')], s)
          else
            (let recipientId = (case sd_recipientId dt of None \<Rightarrow> [] | Some r \<Rightarrow> r);
                 message = (case sd_message dt of None \<Rightarrow> [] | Some m \<Rightarrow> m);
                 emit = RoomEmit (room recipientId)
                          \<lparr>p_message = message, p_senderId = uid, p_timestamp = now\<rparr>
                          (members (room recipientId) (rooms s));
                 ins = Query (InsertNotification uid recipientId message (Some sid))
             in if ins_ok
                then ([emit, ins, Callback AckSuccess],
                      s\<lparr>db := insert_notification uid recipientId message (Some sid) now (db s)\<rparr>)
                else ([emit, ins, LoggerError ''Notification error:'',
                       Callback (AckError ''Internal server error'')], s)))"

text \<open>
  The same handler for a request that brings no acknowledgement function:
  \<open>callback\<close> is then not a function, every call of it throws, the one in the
  \<open>try\<close> is caught and logged, and the one in the \<open>catch\<close> rejects the handler's
  promise, which nobody handles.
\<close>

definition send_notification_no_callback ::
  "string \<Rightarrow> string \<Rightarrow> time \<Rightarrow> bool \<Rightarrow> send_data option \<Rightarrow> state \<Rightarrow> effect list \<times> state" where
  "send_notification_no_callback sid uid now ins_ok data s =
     (case data of
        None \<Rightarrow> ([LoggerError ''Notification error:'', UnhandledRejection], s)
      | Some dt \<Rightarrow>
          if falsy (sd_recipientId dt) \<or> falsy (sd_message dt)
          then ([LoggerError ''Notification error:'', UnhandledRejection], s)
          else
            (let recipientId = (case sd_recipientId dt of None \<Rightarrow> [] | Some r \<Rightarrow> r);
                 message = (case sd_message dt of None \<Rightarrow> [] | Some m \<Rightarrow> m);
                 emit = RoomEmit (room recipientId)
                          \<lparr>p_message = message, p_senderId = uid, p_timestamp = now\<rparr>
                          (members (room recipientId) (rooms s));
                 ins = Query (InsertNotification uid recipientId message (Some sid))
             in if ins_ok
                then ([emit, ins, LoggerError ''Notification error:'', UnhandledRejection],
                      s\<lparr>db := insert_notification uid recipientId message (Some sid) now (db s)\<rparr>)
                else ([emit, ins, LoggerError ''Notification error:'', UnhandledRejection], s)))"

text \<open>
  \<open>socket.on("disconnect", ...)\<close>. Socket.IO has taken the socket out of its rooms
  when the handler runs. The removal from \<open>socketRateLimits\<close> stands after the awaited
  \<open>UPDATE\<close>, inside the same \<open>try\<close>, and its key is \<open>socket.user.id\<close>.
\<close>

definition on_disconnect ::
  "string \<Rightarrow> string \<Rightarrow> time \<Rightarrow> bool \<Rightarrow> state \<Rightarrow> effect list \<times> state" where
  "on_disconnect sid uid now upd_ok s =
     (let s1 = s\<lparr>rooms := filter (\<lambda>p. fst p \<noteq> sid) (rooms s)\<rparr>
      in if upd_ok
         then ([Query (UpdateConnectionLog sid)],
               s1\<lparr>db := update_connection_log sid now (db s1),
                  socketRateLimits := (socketRateLimits s1)(uid := None)\<rparr>)
         else ([Query (UpdateConnectionLog sid), LoggerError ''Disconnection logging error:''], s1))"

subsection \<open>HTTP\<close>

record webhook_body =
  wb_recipientId :: field
  wb_message :: field
  wb_apiKey :: field

datatype http_method = GET | HEAD | POST | OTHER

text \<open>
  A request: its method (\<open>OTHER\<close>: none of \<open>GET\<close>, \<open>HEAD\<close>, \<open>POST\<close>,
  \<open>OPTIONS\<close>), its path as the list of the segments between the slashes (the last
  one empty when the path ends with a slash), \<open>req.ip\<close> and its JSON body.
\<close>

record request =
  req_method :: http_method
  req_path :: "string list"
  req_ip :: string
  req_body :: webhook_body

text \<open>
  The validators of express-validator the webhook uses, on fields that are absent or
  strings: a standard validator reads an absent field as the empty string.
\<close>

definition toString :: "field \<Rightarrow> string" where
  "toString v = (case v of None \<Rightarrow> [] | Some s \<Rightarrow> s)"

definition is_alnum_char :: "char \<Rightarrow> bool" where
  "is_alnum_char c =
     (let k = (of_char c :: nat)
      in (48 \<le> k \<and> k \<le> 57) \<or> (65 \<le> k \<and> k \<le> 90) \<or> (97 \<le> k \<and> k \<le> 122))"

definition isAlphanumeric :: "string \<Rightarrow> bool" where
  "isAlphanumeric s = (s \<noteq> [] \<and> list_all is_alnum_char s)"

definition isLength :: "nat \<Rightarrow> nat option \<Rightarrow> string \<Rightarrow> bool" where
  "isLength lo hi s = (lo \<le> length s \<and> (case hi of None \<Rightarrow> True | Some h \<Rightarrow> length s \<le> h))"

text \<open>
  The characters below U+0100 that \<open>trim()\<close> strips (the white space of JavaScript's
  regular expressions): tab, line feed, vertical tab, form feed, carriage return, space
  and the no-break space U+00A0.
\<close>

definition is_space :: "char \<Rightarrow> bool" where
  "is_space c = ((of_char c :: nat) \<in> {9, 10, 11, 12, 13, 32, 160})"

definition trim :: "string \<Rightarrow> string" where
  "trim s = rev (dropWhile is_space (rev (dropWhile is_space s)))"

text \<open>
  The validation chains of \<open>POST /webhook/notify\<close>: one error (here its field) for
  each validator that fails, in the order of the chains.
\<close>

definition validationResult :: "config \<Rightarrow> webhook_body \<Rightarrow> string list" where
  "validationResult cfg b =
     (if isAlphanumeric (toString (wb_recipientId b)) then [] else [''recipientId'']) @
     (if isLength 8 (Some 64) (toString (wb_recipientId b)) then [] else [''recipientId'']) @
     (if wb_message b \<noteq> None then [] else [''message'']) @
     (if isLength 0 (Some 500) (trim (toString (wb_message b))) then [] else [''message'']) @
     (if Some (toString (wb_apiKey b)) = webhook_api_key cfg then [] else [''apiKey''])"

text \<open>The handler of \<open>POST /webhook/notify\<close>; the \<open>trim\<close> sanitizer has rewritten the message.\<close>

definition webhook_notify ::
  "config \<Rightarrow> time \<Rightarrow> bool \<Rightarrow> webhook_body \<Rightarrow> state \<Rightarrow> effect list \<times> state" where
  "webhook_notify cfg now ins_ok b s =
     (let errors = validationResult cfg b
      in if errors \<noteq> [] then ([Respond 400 (BodyErrors errors)], s)
         else
           (let recipientId = toString (wb_recipientId b);
                message = trim (toString (wb_message b));
                emit = RoomEmit (room recipientId)
                         \<lparr>p_message = message, p_senderId = ''system'', p_timestamp = now\<rparr>
                         (members (room recipientId) (rooms s));
                ins = Query (InsertNotification ''system'' recipientId message None)
            in if ins_ok
               then ([emit, ins, Respond 200 BodySuccess],
                     s\<lparr>db := insert_notification ''system'' recipientId message None now (db s)\<rparr>)
               else ([emit, ins, LoggerError ''Webhook error:'',
                      Respond 500 (BodyError ''Internal server error'')], s)))"

text \<open>
  Express matches paths without regard to the case of the letters A to Z and allows
  one slash at the end (its defaults; app.js changes neither).
\<close>

definition is_upper :: "char \<Rightarrow> bool" where
  "is_upper c = (65 \<le> (of_char c :: nat) \<and> (of_char c :: nat) \<le> 90)"

text \<open>A letter A to Z becomes the letter a to z: the code is raised by 32, bit 5 is set.\<close>

fun lower_char :: "char \<Rightarrow> char" where
  "lower_char (Char b0 b1 b2 b3 b4 b5 b6 b7) =
     (if is_upper (Char b0 b1 b2 b3 b4 b5 b6 b7) then Char b0 b1 b2 b3 b4 True b6 b7
      else Char b0 b1 b2 b3 b4 b5 b6 b7)"

definition path_is :: "string list \<Rightarrow> string list \<Rightarrow> bool" where
  "path_is pat p = (map (map lower_char) p = pat \<or> map (map lower_char) p = pat @ [[]])"

text \<open>\<open>app.use("/api/", httpRateLimiter)\<close>: the limiter is mounted on the paths under \<open>/api\<close>.\<close>

definition under_api :: "string list \<Rightarrow> bool" where
  "under_api p = (case p of [] \<Rightarrow> False | seg # _ \<Rightarrow> map lower_char seg = ''api'')"

text \<open>
  The routes, in the order app.js registers them (a \<open>GET\<close> route also serves
  \<open>HEAD\<close>); no route matches: 404.
\<close>

definition route :: "config \<Rightarrow> time \<Rightarrow> bool \<Rightarrow> request \<Rightarrow> state \<Rightarrow> effect list \<times> state" where
  "route cfg now ins_ok req s =
     (if req_method req = POST \<and> path_is [''webhook'', ''notify''] (req_path req)
      then webhook_notify cfg now ins_ok (req_body req) s
      else if (req_method req = GET \<or> req_method req = HEAD) \<and> path_is [''health''] (req_path req)
      then ([Respond 200 BodyHealth], s)
      else ([Respond 404 BodyNotFound], s))"

definition handle_http :: "config \<Rightarrow> time \<Rightarrow> bool \<Rightarrow> request \<Rightarrow> state \<Rightarrow> effect list \<times> state" where
  "handle_http cfg now ins_ok req s =
     (if under_api (req_path req)
      then (case httpRateLimiter cfg now (req_ip req) (httpLimits s) of
              (TooMany429 e r, lim) \<Rightarrow> ([Respond 429 (BodyTooMany e r)], s\<lparr>httpLimits := lim\<rparr>)
            | (_, lim) \<Rightarrow> route cfg now ins_ok req (s\<lparr>httpLimits := lim\<rparr>))
      else route cfg now ins_ok req s)"

subsection \<open>Runs\<close>

datatype event =
    Connect handshake time bool "nat \<Rightarrow> bool"
  | SendNotification string string time bool "send_data option"
  | SendNotificationNoCallback string string time bool "send_data option"
  | Disconnect string string time bool
  | HttpRequest request time bool

fun step :: "config \<Rightarrow> (string \<Rightarrow> string option) \<Rightarrow> event \<Rightarrow> state \<Rightarrow> effect list \<times> state" where
  "step cfg verify (Connect hs now sel_ok upd_ok) s = io_connect cfg verify hs now sel_ok upd_ok s"
| "step cfg verify (SendNotification sid uid now ins_ok data) s = send_notification sid uid now ins_ok data s"
| "step cfg verify (SendNotificationNoCallback sid uid now ins_ok data) s =
     send_notification_no_callback sid uid now ins_ok data s"
| "step cfg verify (Disconnect sid uid now upd_ok) s = on_disconnect sid uid now upd_ok s"
| "step cfg verify (HttpRequest req now ins_ok) s = handle_http cfg now ins_ok req s"

fun run :: "config \<Rightarrow> (string \<Rightarrow> string option) \<Rightarrow> event list \<Rightarrow> state \<Rightarrow> effect list \<times> state" where
  "run cfg verify [] s = ([], s)"
| "run cfg verify (e # es) s =
     (case step cfg verify e s of
        (a, s1) \<Rightarrow> (case run cfg verify es s1 of (b, s2) \<Rightarrow> (a @ b, s2)))"

subsection \<open>Notions the properties are stated with\<close>

fun is_insert :: "effect \<Rightarrow> bool" where
  "is_insert (Query (InsertNotification a b c d)) = True"
| "is_insert e = False"

fun is_room_emit :: "effect \<Rightarrow> bool" where
  "is_room_emit (RoomEmit r p ms) = True"
| "is_room_emit e = False"

text \<open>The ledger write comes first and a fan-out emit follows it.\<close>

definition record_then_publish :: "effect list \<Rightarrow> bool" where
  "record_then_publish es = list_ex is_room_emit (dropWhile (\<lambda>e. \<not> is_insert e) es)"

text \<open>A token verifier for the examples: two tokens are valid.\<close>

definition example_verify :: "string \<Rightarrow> string option" where
  "example_verify t =
     (if t = ''tok-alice'' then Some ''alice''
      else if t = ''tok-bob'' then Some ''bob12345'' else None)"

text \<open>A configuration with small ceilings, and a state in which the user
  \<open>alice\<close> is connected on the socket \<open>s1\<close> and has used up the socket limiter's window.\<close>

definition small_config :: config where
  "small_config =
     \<lparr>http_window = 15, http_max = 2, socket_points = 2, socket_duration = 60,
      webhook_api_key = None\<rparr>"

definition busy :: state where
  "busy = init\<lparr>socketRateLimits := [''alice'' \<mapsto> \<lparr>sl_timestamp = 1000, sl_count = 10\<rparr>],
               rooms := [(''s1'', ''user_alice'')]\<rparr>"

text \<open>
  A well-formed table: the identifiers increase along the table (they are assigned by a
  counter, and rows are appended) and are below the counter.
\<close>

definition wf_db :: "database \<Rightarrow> bool" where
  "wf_db d = (sorted_wrt (<) (map n_id (notifications d)) \<and>
              list_all (\<lambda>n. n_id n < next_id d) (notifications d))"

text \<open>
  Readings of an effect list: the rows emitted to one socket, the rows emitted to any
  socket, the identifiers of the rows an \<open>UPDATE\<close> marks delivered, whether a socket
  joins the room of a user, and the sockets a room emit for a user reaches.
\<close>

fun socket_emit_to :: "string \<Rightarrow> effect \<Rightarrow> notification list" where
  "socket_emit_to sid (SocketEmit sid' n) = (if sid' = sid then [n] else [])"
| "socket_emit_to sid e = []"

definition emitted_to :: "string \<Rightarrow> effect list \<Rightarrow> notification list" where
  "emitted_to sid es = concat (map (socket_emit_to sid) es)"

fun socket_emit :: "effect \<Rightarrow> notification list" where
  "socket_emit (SocketEmit sid n) = [n]"
| "socket_emit e = []"

definition emitted :: "effect list \<Rightarrow> notification list" where
  "emitted es = concat (map socket_emit es)"

fun marked_by :: "effect \<Rightarrow> nat list" where
  "marked_by (Query (UpdateDelivered i)) = [i]"
| "marked_by e = []"

definition marked :: "effect list \<Rightarrow> nat list" where
  "marked es = concat (map marked_by es)"

fun joins_room :: "string \<Rightarrow> effect \<Rightarrow> bool" where
  "joins_room rm (Join sid rm') = (rm' = rm)"
| "joins_room rm e = False"

definition joins :: "string \<Rightarrow> effect list \<Rightarrow> bool" where
  "joins u es = list_ex (joins_room (room u)) es"

fun pushed_to :: "string \<Rightarrow> effect \<Rightarrow> string list" where
  "pushed_to rm (RoomEmit rm' p ms) = (if rm' = rm then ms else [])"
| "pushed_to rm e = []"

definition live_receivers :: "string \<Rightarrow> effect list \<Rightarrow> string list" where
  "live_receivers u es = concat (map (pushed_to (room u)) es)"


text \<open>
  An example: while \<open>bob12345\<close> is offline, \<open>alice\<close> sends him a message and the webhook
  another; he connects on the socket \<open>s2\<close> at time 2000, disconnects and connects again.
  In \<open>online_state\<close> he is connected on \<open>s2\<close> from the start.
\<close>

definition key_config :: config where
  "key_config = default_config (Some ''key'')"

definition row_hi :: notification where
  "row_hi = \<lparr>n_id = 1, n_sender_id = ''alice'', n_recipient_id = ''bob12345'', n_message = ''hi'',
              n_socket_id = Some ''s1'', n_created_at = 1000, n_delivered_at = None\<rparr>"

definition send_hi :: event where
  "send_hi = SendNotification ''s1'' ''alice'' 1000 True
               (Some \<lparr>sd_recipientId = Some ''bob12345'', sd_message = Some ''hi''\<rparr>)"

definition offline_events :: "event list" where
  "offline_events =
     [send_hi,
      HttpRequest
        \<lparr>req_method = POST, req_path = [''webhook'', ''notify''], req_ip = ''10.0.0.1'',
         req_body = \<lparr>wb_recipientId = Some ''bob12345'', wb_message = Some ''restart at 9'',
                     wb_apiKey = Some ''key''\<rparr>\<rparr> 1500 True]"

definition offline_state :: state where
  "offline_state = snd (run key_config example_verify offline_events init)"

definition later_events :: "event list" where
  "later_events =
     [Disconnect ''s2'' ''bob12345'' 2500 True,
      Connect \<lparr>hs_socket_id = ''s3'', hs_token = Some ''tok-bob'', hs_userId = None\<rparr>
        3000 True (\<lambda>i. True)]"


definition replayed_state :: state where
  "replayed_state = snd (on_connection ''s2'' ''bob12345'' 2000 True (\<lambda>i. True) offline_state)"

text \<open>
  The second row of the example, and two connections of \<open>bob12345\<close> in
  \<open>offline_state\<close> whose handlers interleave at their \<open>await\<close>: the socket \<open>s2\<close>
  and then the socket \<open>s3\<close> join and run their \<open>SELECT\<close>, then \<open>s2\<close> runs its loop
  at time 2000 and \<open>s3\<close> runs its loop at time 2100, each on the rows its own
  \<open>SELECT\<close> returned.
\<close>

definition row_note :: notification where
  "row_note = \<lparr>n_id = 2, n_sender_id = ''system'', n_recipient_id = ''bob12345'',
                n_message = ''restart at 9'', n_socket_id = None, n_created_at = 1500,
                n_delivered_at = None\<rparr>"

definition race_select1 :: "effect list \<times> notification list option \<times> state" where
  "race_select1 = connection_select ''s2'' ''bob12345'' True offline_state"

definition race_select2 :: "effect list \<times> notification list option \<times> state" where
  "race_select2 = connection_select ''s3'' ''bob12345'' True (snd (snd race_select1))"

definition race_resume1 :: "effect list \<times> state" where
  "race_resume1 =
     connection_resume ''s2'' 2000 (\<lambda>i. True) (fst (snd race_select1)) (snd (snd race_select2))"

definition race_resume2 :: "effect list \<times> state" where
  "race_resume2 =
     connection_resume ''s3'' 2100 (\<lambda>i. True) (fst (snd race_select2)) (snd race_resume1)"

definition race_effects :: "effect list" where
  "race_effects = fst race_select1 @ fst race_select2 @ fst race_resume1 @ fst race_resume2"

text \<open>A message of 504 characters: 500 letters followed by four spaces.\<close>

definition padded_message :: string where
  "padded_message = replicate 500 (CHR ''a'') @ replicate 4 (CHR '' '')"

section \<open>Properties\<close>

subsection \<open>Paths\<close>

lemma lower_char_code:
  "of_char (lower_char c) = (if is_upper c then of_char c + 32 else (of_char c :: nat))"
  by (cases c) (auto simp: is_upper_def)

lemma paths_examples:
  "path_is [''webhook'', ''notify''] [''WEBHOOK'', ''Notify'', []]"
  "\<not> path_is [''webhook'', ''notify''] [''webhook'', ''notify'', [], []]"
  "under_api [''API'', ''x'']" "under_api [''api'']" "\<not> under_api [''apix'']"
  "\<not> under_api [''webhook'', ''notify'']"
  by (simp_all add: path_is_def under_api_def is_upper_def)


subsection \<open>A send without an acknowledgement function\<close>

lemma send_without_callback_example:
  "send_notification_no_callback ''s1'' ''alice'' 1000 True
     (Some \<lparr>sd_recipientId = Some ''bob12345'', sd_message = Some ''hi''\<rparr>) init
   = ([RoomEmit ''user_bob12345''
         \<lparr>p_message = ''hi'', p_senderId = ''alice'', p_timestamp = 1000\<rparr> [],
       Query (InsertNotification ''alice'' ''bob12345'' ''hi'' (Some ''s1'')),
       LoggerError ''Notification error:'', UnhandledRejection],
      init\<lparr>db := \<lparr>notifications = [row_hi], connection_logs = [], next_id = 2\<rparr>\<rparr>)"
  by (simp add: send_notification_no_callback_def falsy_def room_def members_def init_def
      empty_db_def insert_notification_def row_hi_def Let_def)

subsection \<open>The replay loop\<close>

lemma replay_keeps_logs:
  "connection_logs (snd (replay sid now ok ns d)) = connection_logs d \<and>
   next_id (snd (replay sid now ok ns d)) = next_id d"
  by (induction ns arbitrary: d) (simp_all add: update_delivered_def case_prod_unfold)


lemma fst_replay:
  "fst (replay sid now ok ns d) =
     concat (map (\<lambda>n. [SocketEmit sid n, Query (UpdateDelivered (n_id n))]) ns)"
  by (induction ns arbitrary: d) (simp_all add: case_prod_unfold)

lemma notifications_replay:
  "notifications (snd (replay sid now ok ns d)) =
     map (\<lambda>m. if (\<exists>n\<in>set ns. n_id n = n_id m \<and> ok (n_id m)) then m\<lparr>n_delivered_at := Some now\<rparr> else m)
       (notifications d)"
proof (induction ns arbitrary: d)
  case Nil
  then show ?case by simp
next
  case (Cons n ns)
  show ?case
    by (simp add: case_prod_unfold Cons.IH update_delivered_def) auto
qed

lemma emitted_to_replay: "emitted_to sid (fst (replay sid now ok ns d)) = ns"
  by (induction ns arbitrary: d) (simp_all add: case_prod_unfold emitted_to_def)

lemma emitted_replay: "emitted (fst (replay sid now ok ns d)) = ns"
  by (induction ns arbitrary: d) (simp_all add: case_prod_unfold emitted_def)

lemma marked_replay: "marked (fst (replay sid now ok ns d)) = map n_id ns"
  by (induction ns arbitrary: d) (simp_all add: case_prod_unfold marked_def)

lemma rejections_none: "rejections (\<lambda>i. True) rows = []"
  by (simp add: rejections_def)

lemma rejections_silent:
  "emitted (rejections ok rows) = []" "emitted_to sid (rejections ok rows) = []"
  "marked (rejections ok rows) = []" "\<not> joins u (rejections ok rows)"
  "live_receivers r (rejections ok rows) = []"
  by (induction rows)
    (simp_all add: rejections_def emitted_def emitted_to_def marked_def joins_def live_receivers_def)

text \<open>The connection handler in one piece.\<close>

lemma on_connection_eq:
  "on_connection sid uid now sel_ok upd_ok s =
     (if sel_ok
      then (Join sid (room uid) # Query (SelectUndelivered uid) #
              fst (replay sid now upd_ok (select_undelivered uid (db s)) (db s)) @
              rejections upd_ok (select_undelivered uid (db s)),
            s\<lparr>rooms := rooms s @ [(sid, room uid)],
              db := snd (replay sid now upd_ok (select_undelivered uid (db s)) (db s))\<rparr>)
      else ([Join sid (room uid), Query (SelectUndelivered uid),
             LoggerError ''Notification delivery error:''],
            s\<lparr>rooms := rooms s @ [(sid, room uid)]\<rparr>))"
  by (simp add: on_connection_def connection_select_def connection_resume_def Let_def
      case_prod_unfold)

lemma effects_append:
  "emitted (a @ b) = emitted a @ emitted b" "emitted_to sid (a @ b) = emitted_to sid a @ emitted_to sid b"
  "marked (a @ b) = marked a @ marked b" "joins u (a @ b) = (joins u a \<or> joins u b)"
  "live_receivers r (a @ b) = live_receivers r a @ live_receivers r b"
  by (simp_all add: emitted_def emitted_to_def marked_def joins_def live_receivers_def)

lemma effects_Cons:
  "emitted (e # es) = socket_emit e @ emitted es"
  "emitted_to sid (e # es) = socket_emit_to sid e @ emitted_to sid es"
  "marked (e # es) = marked_by e @ marked es"
  "joins u (e # es) = (joins_room (room u) e \<or> joins u es)"
  "emitted [] = []" "emitted_to sid [] = []" "marked [] = []" "\<not> joins u []"
  by (simp_all add: emitted_def emitted_to_def marked_def joins_def)

lemma on_connection_cases:
  assumes "on_connection sid u t sel_ok ok s = (es, s')"
  shows "joins u es \<and> rooms s' = rooms s @ [(sid, room u)] \<and>
         (if sel_ok
          then db s' = snd (replay sid t ok (select_undelivered u (db s)) (db s)) \<and>
               emitted es = select_undelivered u (db s) \<and>
               emitted_to sid es = select_undelivered u (db s) \<and>
               marked es = map n_id (select_undelivered u (db s))
          else db s' = db s \<and> emitted es = [] \<and> marked es = [])"
  using assms
  by (auto simp: on_connection_eq effects_Cons effects_append rejections_silent emitted_replay
      emitted_to_replay marked_replay split: if_splits)

lemma send_notification_cases:
  assumes "send_notification sid uid t ins_ok dt s = (es, s')"
  shows "emitted es = [] \<and> marked es = [] \<and>
         (db s' = db s \<or> (\<exists>a b c d. db s' = insert_notification a b c d t (db s)))"
proof (cases "ins_ok \<and> dt \<noteq> None \<and> \<not> falsy (sd_recipientId (the dt)) \<and> \<not> falsy (sd_message (the dt))")
  case True
  with assms have "emitted es = [] \<and> marked es = [] \<and> db s' = insert_notification uid
      (case sd_recipientId (the dt) of None \<Rightarrow> [] | Some r \<Rightarrow> r)
      (case sd_message (the dt) of None \<Rightarrow> [] | Some m \<Rightarrow> m) (Some sid) t (db s)"
    by (auto simp: send_notification_def Let_def emitted_def marked_def)
  then show ?thesis by blast
next
  case False
  with assms have "emitted es = [] \<and> marked es = [] \<and> db s' = db s"
    by (auto simp: send_notification_def Let_def emitted_def marked_def split: option.splits if_splits)
  then show ?thesis by blast
qed

lemma send_notification_no_callback_cases:
  assumes "send_notification_no_callback sid uid t ins_ok dt s = (es, s')"
  shows "emitted es = [] \<and> marked es = [] \<and>
         (db s' = db s \<or> (\<exists>a b c d. db s' = insert_notification a b c d t (db s)))"
proof (cases "ins_ok \<and> dt \<noteq> None \<and> \<not> falsy (sd_recipientId (the dt)) \<and> \<not> falsy (sd_message (the dt))")
  case True
  with assms have "emitted es = [] \<and> marked es = [] \<and> db s' = insert_notification uid
      (case sd_recipientId (the dt) of None \<Rightarrow> [] | Some r \<Rightarrow> r)
      (case sd_message (the dt) of None \<Rightarrow> [] | Some m \<Rightarrow> m) (Some sid) t (db s)"
    by (auto simp: send_notification_no_callback_def Let_def emitted_def marked_def)
  then show ?thesis by blast
next
  case False
  with assms have "emitted es = [] \<and> marked es = [] \<and> db s' = db s"
    by (auto simp: send_notification_no_callback_def Let_def emitted_def marked_def
        split: option.splits if_splits)
  then show ?thesis by blast
qed

lemma webhook_notify_cases:
  assumes "webhook_notify cfg t ins_ok b s = (es, s')"
  shows "emitted es = [] \<and> marked es = [] \<and>
         (db s' = db s \<or> (\<exists>a b c d. db s' = insert_notification a b c d t (db s)))"
proof (cases "ins_ok \<and> validationResult cfg b = []")
  case True
  with assms have "emitted es = [] \<and> marked es = [] \<and> db s' = insert_notification ''system''
      (toString (wb_recipientId b)) (trim (toString (wb_message b))) None t (db s)"
    by (auto simp: webhook_notify_def Let_def emitted_def marked_def)
  then show ?thesis by blast
next
  case False
  with assms have "emitted es = [] \<and> marked es = [] \<and> db s' = db s"
    by (auto simp: webhook_notify_def Let_def emitted_def marked_def split: if_splits)
  then show ?thesis by blast
qed

lemma route_cases:
  assumes "route cfg t ins_ok req s = (es, s')"
  shows "emitted es = [] \<and> marked es = [] \<and>
         (db s' = db s \<or> (\<exists>a b c d. db s' = insert_notification a b c d t (db s)))"
proof (cases "req_method req = POST \<and> path_is [''webhook'', ''notify''] (req_path req)")
  case True
  with assms have "webhook_notify cfg t ins_ok (req_body req) s = (es, s')"
    by (simp add: route_def)
  then show ?thesis by (rule webhook_notify_cases)
next
  case False
  with assms have "emitted es = [] \<and> marked es = [] \<and> db s' = db s"
    by (auto simp: route_def emitted_def marked_def split: if_splits)
  then show ?thesis by blast
qed

lemma handle_http_cases:
  assumes "handle_http cfg t ins_ok req s = (es, s')"
  shows "emitted es = [] \<and> marked es = [] \<and>
         (db s' = db s \<or> (\<exists>a b c d. db s' = insert_notification a b c d t (db s)))"
proof (cases "under_api (req_path req)")
  case False
  with assms have "route cfg t ins_ok req s = (es, s')" by (simp add: handle_http_def)
  then show ?thesis by (rule route_cases)
next
  case True
  obtain v lim where v: "httpRateLimiter cfg t (req_ip req) (httpLimits s) = (v, lim)"
    by (cases "httpRateLimiter cfg t (req_ip req) (httpLimits s)")
  show ?thesis
  proof (cases "\<exists>e r. v = TooMany429 e r")
    case True
    with assms \<open>under_api (req_path req)\<close> v have "emitted es = [] \<and> marked es = [] \<and> db s' = db s"
      by (auto simp: handle_http_def emitted_def marked_def)
    then show ?thesis by blast
  next
    case False
    with assms \<open>under_api (req_path req)\<close> v
    have "route cfg t ins_ok req (s\<lparr>httpLimits := lim\<rparr>) = (es, s')"
      by (cases v) (auto simp: handle_http_def)
    from route_cases [OF this] show ?thesis by simp
  qed
qed

lemma on_disconnect_cases:
  assumes "on_disconnect sid uid t ok s = (es, s')"
  shows "emitted es = [] \<and> marked es = [] \<and>
         (db s' = db s \<or> db s' = update_connection_log sid t (db s))"
  using assms by (auto simp: on_disconnect_def Let_def emitted_def marked_def split: if_splits)

lemma io_connect_cases:
  assumes "io_connect cfg verify hs t sel_ok ok s = (es, s')"
  shows "(db s' = db s \<and> emitted es = [] \<and> marked es = []) \<or>
         (\<exists>u. joins u es \<and> db s' = snd (replay (hs_socket_id hs) t ok (select_undelivered u (db s)) (db s)) \<and>
              emitted es = select_undelivered u (db s))"
proof (cases "auth_middleware verify (hs_token hs)")
  case (Inl msg)
  with assms show ?thesis by (auto simp: io_connect_def emitted_def marked_def)
next
  case (Inr u)
  obtain v lim where v: "socketRateLimiter cfg t (socket_key (hs_userId hs) (hs_socket_id hs))
      (socketRateLimits s) = (v, lim)"
    by (cases "socketRateLimiter cfg t (socket_key (hs_userId hs) (hs_socket_id hs)) (socketRateLimits s)")
  show ?thesis
  proof (cases "\<exists>msg. v = NextError msg")
    case True
    with assms Inr v show ?thesis by (auto simp: io_connect_def emitted_def marked_def)
  next
    case False
    with assms Inr v
    have oc: "on_connection (hs_socket_id hs) u t sel_ok ok (s\<lparr>socketRateLimits := lim\<rparr>) = (es, s')"
      by (cases v) (auto simp: io_connect_def)
    from on_connection_cases [OF oc] show ?thesis by (cases sel_ok) auto
  qed
qed

lemma step_cases:
  assumes "step cfg verify ev s = (es, s')"
  obtains
    (idle) "db s' = db s" "emitted es = []"
  | (insert) a b c d t where "db s' = insert_notification a b c d t (db s)" "emitted es = []"
  | (close) sid t where "db s' = update_connection_log sid t (db s)" "emitted es = []"
  | (connect) sid u t ok where
      "db s' = snd (replay sid t ok (select_undelivered u (db s)) (db s))"
      "emitted es = select_undelivered u (db s)" "joins u es"
proof (cases ev)
  case (Connect hs t sel_ok ok)
  with assms have "io_connect cfg verify hs t sel_ok ok s = (es, s')" by simp
  from io_connect_cases [OF this] show ?thesis using idle connect by blast
next
  case (SendNotification sid uid t ins_ok dt)
  with assms have "send_notification sid uid t ins_ok dt s = (es, s')" by simp
  from send_notification_cases [OF this] show ?thesis using idle insert by blast
next
  case (SendNotificationNoCallback sid uid t ins_ok dt)
  with assms have "send_notification_no_callback sid uid t ins_ok dt s = (es, s')" by simp
  from send_notification_no_callback_cases [OF this] show ?thesis using idle insert by blast
next
  case (Disconnect sid uid t ok)
  with assms have "on_disconnect sid uid t ok s = (es, s')" by simp
  from on_disconnect_cases [OF this] show ?thesis using idle close by blast
next
  case (HttpRequest req t ins_ok)
  with assms have "handle_http cfg t ins_ok req s = (es, s')" by simp
  from handle_http_cases [OF this] show ?thesis using idle insert by blast
qed


subsection \<open>Well-formed tables\<close>

lemma wf_db_ids:
  assumes "wf_db d" "n \<in> set (notifications d)" "m \<in> set (notifications d)" "n_id n = n_id m"
  shows "n = m"
proof -
  from assms(1) have "distinct (map n_id (notifications d))"
    by (simp add: wf_db_def strict_sorted_iff)
  then have "inj_on n_id (set (notifications d))" by (simp add: distinct_map)
  with assms(2-4) show ?thesis by (auto dest: inj_onD)
qed

lemma wf_db_distinct: "wf_db d \<Longrightarrow> distinct (notifications d)"
  by (simp add: wf_db_def strict_sorted_iff distinct_map)

lemma wf_db_less: "wf_db d \<Longrightarrow> n \<in> set (notifications d) \<Longrightarrow> n_id n < next_id d"
  by (simp add: wf_db_def list_all_iff)

lemma wf_insert: "wf_db d \<Longrightarrow> wf_db (insert_notification a b c e t d)"
  by (auto simp: wf_db_def insert_notification_def sorted_wrt_append list_all_iff less_Suc_eq)

lemma wf_close: "wf_db d \<Longrightarrow> wf_db (update_connection_log sid t d)"
  by (simp add: wf_db_def update_connection_log_def)

lemma ids_replay:
  "map n_id (notifications (snd (replay sid t ok ns d))) = map n_id (notifications d)"
  by (simp add: notifications_replay o_def if_distrib)

lemma replay_rows:
  assumes "m' \<in> set (notifications (snd (replay sid t ok ns d)))"
  shows "\<exists>m\<in>set (notifications d). n_id m' = n_id m \<and> n_recipient_id m' = n_recipient_id m \<and>
           (n_delivered_at m' = n_delivered_at m \<or> n_delivered_at m' = Some t)"
  using assms by (auto simp: notifications_replay)

lemma wf_replay:
  assumes "wf_db d"
  shows "wf_db (snd (replay sid t ok ns d))"
proof -
  have "n_id m' < next_id d" if "m' \<in> set (notifications (snd (replay sid t ok ns d)))" for m'
  proof -
    from replay_rows [OF that] obtain m where "m \<in> set (notifications d)" "n_id m' = n_id m"
      by blast
    with assms show ?thesis by (simp add: wf_db_less)
  qed
  with assms show ?thesis
    by (simp add: wf_db_def ids_replay replay_keeps_logs list_all_iff)
qed

lemma replay_keeps_row:
  assumes "wf_db d" "m \<in> set (notifications d)"
    and "\<not> (n_recipient_id m = u \<and> n_delivered_at m = None)"
  shows "m \<in> set (notifications (snd (replay sid t ok (select_undelivered u d) d)))"
proof -
  have neg: "\<not> (\<exists>n\<in>set (select_undelivered u d). n_id n = n_id m \<and> ok (n_id m))"
  proof
    assume "\<exists>n\<in>set (select_undelivered u d). n_id n = n_id m \<and> ok (n_id m)"
    then obtain n where n: "n \<in> set (notifications d)" "n_recipient_id n = u"
        "n_delivered_at n = None" "n_id n = n_id m"
      by (auto simp: select_undelivered_def)
    with assms(1,2) have "n = m" by (intro wf_db_ids [of d]) simp_all
    with n assms(3) show False by simp
  qed
  show ?thesis
    unfolding notifications_replay set_map
    using assms(2) neg by (intro image_eqI [of _ _ m]) auto
qed

lemma replay_marks_row:
  assumes "m \<in> set (select_undelivered u d)" "ok (n_id m)"
  shows "m\<lparr>n_delivered_at := Some t\<rparr> \<in> set (notifications (snd (replay sid t ok (select_undelivered u d) d)))"
proof -
  from assms(1) have "m \<in> set (notifications d)" by (simp add: select_undelivered_def)
  then show ?thesis
    unfolding notifications_replay set_map
    using assms by (intro image_eqI [of _ _ m]) auto
qed


subsection \<open>Steps and runs\<close>

lemma joins_append: "joins u (a @ b) = (joins u a \<or> joins u b)"
  by (simp add: joins_def)

lemma emitted_append: "emitted (a @ b) = emitted a @ emitted b"
  by (simp add: emitted_def)

lemma live_receivers_append: "live_receivers u (a @ b) = live_receivers u a @ live_receivers u b"
  by (simp add: live_receivers_def)

lemma notifications_insert:
  "notifications (insert_notification a b c e t d) =
     notifications d @ [\<lparr>n_id = next_id d, n_sender_id = a, n_recipient_id = b, n_message = c,
        n_socket_id = e, n_created_at = t, n_delivered_at = None\<rparr>]"
  by (simp add: insert_notification_def)

lemma step_wf:
  assumes "step cfg verify ev s = (es, s')" "wf_db (db s)"
  shows "wf_db (db s') \<and> next_id (db s) \<le> next_id (db s')"
  using assms(1)
proof (cases rule: step_cases)
  case idle
  with assms(2) show ?thesis by simp
next
  case (insert a b c d t)
  with assms(2) show ?thesis by (simp add: wf_insert) (simp add: insert_notification_def)
next
  case (close sid t)
  with assms(2) show ?thesis by (simp add: wf_close) (simp add: update_connection_log_def)
next
  case (connect sid u t ok)
  with assms(2) show ?thesis by (simp add: wf_replay replay_keeps_logs)
qed

lemma step_keeps_row:
  assumes "step cfg verify ev s = (es, s')" "wf_db (db s)" "m \<in> set (notifications (db s))"
    and "n_delivered_at m \<noteq> None \<or> \<not> joins (n_recipient_id m) es"
  shows "m \<in> set (notifications (db s'))"
  using assms(1)
proof (cases rule: step_cases)
  case idle
  with assms(3) show ?thesis by simp
next
  case (insert a b c d t)
  with assms(3) show ?thesis by (simp add: notifications_insert)
next
  case (close sid t)
  with assms(3) show ?thesis by (simp add: update_connection_log_def)
next
  case (connect sid u t ok)
  from connect(3) assms(4) have "\<not> (n_recipient_id m = u \<and> n_delivered_at m = None)" by auto
  with assms(2,3) connect(1) show ?thesis by (simp add: replay_keeps_row)
qed

lemma run_keeps_row:
  assumes "run cfg verify evs s = (es, s')" "wf_db (db s)" "m \<in> set (notifications (db s))"
    and "n_delivered_at m \<noteq> None \<or> \<not> joins (n_recipient_id m) es"
  shows "m \<in> set (notifications (db s')) \<and> wf_db (db s')"
  using assms
proof (induction evs arbitrary: s es s')
  case Nil
  then show ?case by simp
next
  case (Cons ev evs)
  obtain a s1 where a: "step cfg verify ev s = (a, s1)" by (cases "step cfg verify ev s")
  obtain b s2 where b: "run cfg verify evs s1 = (b, s2)" by (cases "run cfg verify evs s1")
  from Cons.prems(1) a b have e: "es = a @ b" "s' = s2" by simp_all
  from Cons.prems(4) e have ja: "n_delivered_at m \<noteq> None \<or> \<not> joins (n_recipient_id m) a"
    and jb: "n_delivered_at m \<noteq> None \<or> \<not> joins (n_recipient_id m) b"
    by (auto simp: joins_append)
  from step_keeps_row [OF a Cons.prems(2,3) ja] have m1: "m \<in> set (notifications (db s1))" .
  from step_wf [OF a Cons.prems(2)] have w1: "wf_db (db s1)" by simp
  from Cons.IH [OF b w1 m1 jb] e show ?case by simp
qed

lemma run_wf:
  assumes "run cfg verify evs s = (es, s')" "wf_db (db s)"
  shows "wf_db (db s') \<and> next_id (db s) \<le> next_id (db s')"
  using assms
proof (induction evs arbitrary: s es s')
  case Nil
  then show ?case by simp
next
  case (Cons ev evs)
  obtain a s1 where a: "step cfg verify ev s = (a, s1)" by (cases "step cfg verify ev s")
  obtain b s2 where b: "run cfg verify evs s1 = (b, s2)" by (cases "run cfg verify evs s1")
  from Cons.prems(1) a b have e: "s' = s2" by simp
  note w1 = step_wf [OF a Cons.prems(2)]
  from Cons.IH [OF b w1 [THEN conjunct1]] w1 e show ?case by simp
qed

text \<open>Every state the server reaches from its start has well-formed tables.\<close>

lemma reachable_wf: "wf_db (db (snd (run cfg verify evs init)))"
proof -
  obtain es s' where r: "run cfg verify evs init = (es, s')" by (cases "run cfg verify evs init")
  have "wf_db (db init)" by (simp add: wf_db_def init_def empty_db_def)
  from run_wf [OF r this] r show ?thesis by simp
qed

text \<open>Rows recorded from identifier k on, for a user who does not connect, stay undelivered.\<close>

lemma step_fresh:
  assumes "step cfg verify ev s = (es, s')" "wf_db (db s)" "k \<le> next_id (db s)"
    and "\<forall>m\<in>set (notifications (db s)). k \<le> n_id m \<and> n_recipient_id m = r \<longrightarrow> n_delivered_at m = None"
    and "\<not> joins r es"
  shows "\<forall>m\<in>set (notifications (db s')). k \<le> n_id m \<and> n_recipient_id m = r \<longrightarrow> n_delivered_at m = None"
  using assms(1)
proof (cases rule: step_cases)
  case idle
  with assms(4) show ?thesis by simp
next
  case (insert a b c d t)
  with assms(4) show ?thesis by (simp add: notifications_insert)
next
  case (close sid t)
  with assms(4) show ?thesis by (simp add: update_connection_log_def)
next
  case (connect sid u t ok)
  from connect(3) assms(5) have ur: "u \<noteq> r" by auto
  show ?thesis
  proof (intro ballI impI)
    fix m' assume m': "m' \<in> set (notifications (db s'))" "k \<le> n_id m' \<and> n_recipient_id m' = r"
    from m'(1) connect(1) replay_rows [of m' sid t ok "select_undelivered u (db s)" "db s"]
    obtain m where m: "m \<in> set (notifications (db s))" "n_id m' = n_id m"
        "n_recipient_id m' = n_recipient_id m"
      by auto
    from m m'(2) ur have "\<not> (n_recipient_id m = u \<and> n_delivered_at m = None)" by simp
    from replay_keeps_row [OF assms(2) m(1) this, of sid t ok] connect(1)
    have "m \<in> set (notifications (db s'))" by simp
    moreover from assms(2) connect(1) have "wf_db (db s')" by (simp add: wf_replay)
    ultimately have "m' = m" using m'(1) m(2) by (intro wf_db_ids [of "db s'"]) simp_all
    with m(1) m'(2) assms(4) show "n_delivered_at m' = None" by simp
  qed
qed

lemma run_fresh:
  assumes "run cfg verify evs s = (es, s')" "wf_db (db s)" "k \<le> next_id (db s)"
    and "\<forall>m\<in>set (notifications (db s)). k \<le> n_id m \<and> n_recipient_id m = r \<longrightarrow> n_delivered_at m = None"
    and "\<not> joins r es"
  shows "wf_db (db s') \<and>
    (\<forall>m\<in>set (notifications (db s')). k \<le> n_id m \<and> n_recipient_id m = r \<longrightarrow> n_delivered_at m = None)"
  using assms
proof (induction evs arbitrary: s es s')
  case Nil
  then show ?case by simp
next
  case (Cons ev evs)
  obtain a s1 where a: "step cfg verify ev s = (a, s1)" by (cases "step cfg verify ev s")
  obtain b s2 where b: "run cfg verify evs s1 = (b, s2)" by (cases "run cfg verify evs s1")
  from Cons.prems(1) a b have e: "es = a @ b" "s' = s2" by simp_all
  from Cons.prems(5) e have ja: "\<not> joins r a" and jb: "\<not> joins r b" by (auto simp: joins_append)
  from step_wf [OF a Cons.prems(2)] Cons.prems(3) have w1: "wf_db (db s1)" "k \<le> next_id (db s1)"
    by simp_all
  from step_fresh [OF a Cons.prems(2,3,4) ja]
  have f1: "\<forall>m\<in>set (notifications (db s1)). k \<le> n_id m \<and> n_recipient_id m = r \<longrightarrow> n_delivered_at m = None" .
  from Cons.IH [OF b w1 f1 jb] e show ?case by simp
qed

text \<open>A row that is delivered is not replayed again.\<close>

lemma step_delivered:
  assumes "step cfg verify ev s = (es, s')" "wf_db (db s)" "i < next_id (db s)"
    and "\<forall>m\<in>set (notifications (db s)). n_id m = i \<longrightarrow> n_delivered_at m \<noteq> None"
  shows "(\<forall>m\<in>set (emitted es). n_id m \<noteq> i) \<and>
         (\<forall>m\<in>set (notifications (db s')). n_id m = i \<longrightarrow> n_delivered_at m \<noteq> None)"
  using assms(1)
proof (cases rule: step_cases)
  case idle
  with assms(4) show ?thesis by simp
next
  case (insert a b c d t)
  with assms(3,4) show ?thesis by (auto simp: notifications_insert)
next
  case (close sid t)
  with assms(4) show ?thesis by (simp add: update_connection_log_def)
next
  case (connect sid u t ok)
  have "\<forall>m\<in>set (select_undelivered u (db s)). n_id m \<noteq> i"
    using assms(4) by (auto simp: select_undelivered_def)
  moreover have "\<forall>m\<in>set (notifications (db s')). n_id m = i \<longrightarrow> n_delivered_at m \<noteq> None"
    using assms(4) connect(1) by (auto simp: notifications_replay)
  ultimately show ?thesis using connect(2) by simp
qed

lemma run_delivered:
  assumes "run cfg verify evs s = (es, s')" "wf_db (db s)" "i < next_id (db s)"
    and "\<forall>m\<in>set (notifications (db s)). n_id m = i \<longrightarrow> n_delivered_at m \<noteq> None"
  shows "\<forall>m\<in>set (emitted es). n_id m \<noteq> i"
  using assms
proof (induction evs arbitrary: s es s')
  case Nil
  then show ?case by (simp add: emitted_def)
next
  case (Cons ev evs)
  obtain a s1 where a: "step cfg verify ev s = (a, s1)" by (cases "step cfg verify ev s")
  obtain b s2 where b: "run cfg verify evs s1 = (b, s2)" by (cases "run cfg verify evs s1")
  from Cons.prems(1) a b have e: "es = a @ b" "s' = s2" by simp_all
  from step_wf [OF a Cons.prems(2)] Cons.prems(3) have w1: "wf_db (db s1)" "i < next_id (db s1)"
    by simp_all
  note d = step_delivered [OF a Cons.prems(2,3,4)]
  from Cons.IH [OF b w1 d [THEN conjunct2]] have "\<forall>m\<in>set (emitted b). n_id m \<noteq> i" .
  with d e show ?case by (auto simp: emitted_append)
qed


subsection \<open>Rooms\<close>

lemma room_inj: "room u = room r \<Longrightarrow> u = r"
  by (simp add: room_def)

lemma live_receivers_simps:
  "live_receivers r [] = []"
  "live_receivers r (e # es) = pushed_to (room r) e @ live_receivers r es"
  by (simp_all add: live_receivers_def)

lemma live_receivers_replay: "live_receivers r (fst (replay sid t ok ns d)) = []"
  by (induction ns arbitrary: d) (simp_all add: case_prod_unfold live_receivers_def)

lemma members_empty_filter: "members rm rs = [] \<Longrightarrow> members rm (filter P rs) = []"
  by (induction rs) (auto simp: members_def split: if_splits)

lemma send_notification_rooms:
  assumes "send_notification sid uid t ins_ok dt s = (es, s')" "members (room r) (rooms s) = []"
  shows "live_receivers r es = [] \<and> rooms s' = rooms s"
  using assms
  by (auto simp: send_notification_def Let_def live_receivers_def split: option.splits if_splits)

lemma send_notification_no_callback_rooms:
  assumes "send_notification_no_callback sid uid t ins_ok dt s = (es, s')"
    and "members (room r) (rooms s) = []"
  shows "live_receivers r es = [] \<and> rooms s' = rooms s"
  using assms
  by (auto simp: send_notification_no_callback_def Let_def live_receivers_def
      split: option.splits if_splits)

lemma route_rooms:
  assumes "route cfg t ins_ok req s = (es, s')" "members (room r) (rooms s) = []"
  shows "live_receivers r es = [] \<and> rooms s' = rooms s"
  using assms
  by (auto simp: route_def webhook_notify_def Let_def live_receivers_def split: if_splits)

lemma handle_http_rooms:
  assumes "handle_http cfg t ins_ok req s = (es, s')" "members (room r) (rooms s) = []"
  shows "live_receivers r es = [] \<and> rooms s' = rooms s"
proof (cases "under_api (req_path req)")
  case False
  with assms(1) have "route cfg t ins_ok req s = (es, s')" by (simp add: handle_http_def)
  from route_rooms [OF this assms(2)] show ?thesis .
next
  case True
  obtain v lim where v: "httpRateLimiter cfg t (req_ip req) (httpLimits s) = (v, lim)"
    by (cases "httpRateLimiter cfg t (req_ip req) (httpLimits s)")
  show ?thesis
  proof (cases "\<exists>e q. v = TooMany429 e q")
    case True
    with assms \<open>under_api (req_path req)\<close> v show ?thesis
      by (auto simp: handle_http_def live_receivers_def)
  next
    case False
    with assms(1) \<open>under_api (req_path req)\<close> v
    have "route cfg t ins_ok req (s\<lparr>httpLimits := lim\<rparr>) = (es, s')"
      by (cases v) (auto simp: handle_http_def)
    from route_rooms [OF this] assms(2) show ?thesis by simp
  qed
qed

lemma on_disconnect_rooms:
  assumes "on_disconnect sid uid t ok s = (es, s')" "members (room r) (rooms s) = []"
  shows "live_receivers r es = [] \<and> members (room r) (rooms s') = []"
  using assms
  by (auto simp: on_disconnect_def Let_def live_receivers_def members_empty_filter split: if_splits)

lemma on_connection_rooms:
  assumes "on_connection sid u t sel_ok ok s = (es, s')" "members (room r) (rooms s) = []" "u \<noteq> r"
  shows "live_receivers r es = [] \<and> members (room r) (rooms s') = []"
proof -
  from assms(3) have "room u \<noteq> room r" by (auto dest: room_inj)
  with assms(1,2) show ?thesis
    by (auto simp: on_connection_eq members_def live_receivers_replay live_receivers_simps
        effects_append rejections_silent split: if_splits)
qed

lemma io_connect_rooms:
  assumes "io_connect cfg verify hs t sel_ok ok s = (es, s')" "members (room r) (rooms s) = []"
    and "\<not> joins r es"
  shows "live_receivers r es = [] \<and> members (room r) (rooms s') = []"
proof (cases "auth_middleware verify (hs_token hs)")
  case (Inl msg)
  with assms show ?thesis by (auto simp: io_connect_def live_receivers_def)
next
  case (Inr u)
  obtain v lim where v: "socketRateLimiter cfg t (socket_key (hs_userId hs) (hs_socket_id hs))
      (socketRateLimits s) = (v, lim)"
    by (cases "socketRateLimiter cfg t (socket_key (hs_userId hs) (hs_socket_id hs)) (socketRateLimits s)")
  show ?thesis
  proof (cases "\<exists>msg. v = NextError msg")
    case True
    with assms Inr v show ?thesis by (auto simp: io_connect_def live_receivers_def)
  next
    case False
    with assms Inr v
    have oc: "on_connection (hs_socket_id hs) u t sel_ok ok (s\<lparr>socketRateLimits := lim\<rparr>) = (es, s')"
      by (cases v) (auto simp: io_connect_def)
    from on_connection_cases [OF oc] assms(3) have "u \<noteq> r" by auto
    from on_connection_rooms [OF oc _ this] assms(2) show ?thesis by simp
  qed
qed

lemma step_rooms:
  assumes "step cfg verify ev s = (es, s')" "members (room r) (rooms s) = []" "\<not> joins r es"
  shows "live_receivers r es = [] \<and> members (room r) (rooms s') = []"
proof (cases ev)
  case (Connect hs t sel_ok ok)
  with assms(1) have "io_connect cfg verify hs t sel_ok ok s = (es, s')" by simp
  from io_connect_rooms [OF this assms(2,3)] show ?thesis .
next
  case (SendNotification sid uid t ins_ok dt)
  with assms(1) have "send_notification sid uid t ins_ok dt s = (es, s')" by simp
  from send_notification_rooms [OF this assms(2)] assms(2) show ?thesis by simp
next
  case (SendNotificationNoCallback sid uid t ins_ok dt)
  with assms(1) have "send_notification_no_callback sid uid t ins_ok dt s = (es, s')" by simp
  from send_notification_no_callback_rooms [OF this assms(2)] assms(2) show ?thesis by simp
next
  case (Disconnect sid uid t ok)
  with assms(1) have "on_disconnect sid uid t ok s = (es, s')" by simp
  from on_disconnect_rooms [OF this assms(2)] show ?thesis .
next
  case (HttpRequest req t ins_ok)
  with assms(1) have "handle_http cfg t ins_ok req s = (es, s')" by simp
  from handle_http_rooms [OF this assms(2)] assms(2) show ?thesis by simp
qed

lemma run_rooms:
  assumes "run cfg verify evs s = (es, s')" "members (room r) (rooms s) = []" "\<not> joins r es"
  shows "live_receivers r es = []"
  using assms
proof (induction evs arbitrary: s es s')
  case Nil
  then show ?case by (simp add: live_receivers_def)
next
  case (Cons ev evs)
  obtain a s1 where a: "step cfg verify ev s = (a, s1)" by (cases "step cfg verify ev s")
  obtain b s2 where b: "run cfg verify evs s1 = (b, s2)" by (cases "run cfg verify evs s1")
  from Cons.prems(1) a b have e: "es = a @ b" "s' = s2" by simp_all
  from Cons.prems(3) e have ja: "\<not> joins r a" and jb: "\<not> joins r b" by (auto simp: joins_append)
  note r1 = step_rooms [OF a Cons.prems(2) ja]
  from Cons.IH [OF b r1 [THEN conjunct2] jb] r1 e show ?case
    by (simp add: live_receivers_append)
qed


subsection \<open>Replay of notifications\<close>

lemma count_list_distinct: "distinct xs \<Longrightarrow> x \<in> set xs \<Longrightarrow> count_list xs x = 1"
  by (induction xs) auto

text \<open>
  C1, as the code has it: for connection handlers that run one after the other, with
  the statements of the replay succeeding. Let the table be well-formed, let the user
  \<open>r\<close> have no socket in his room, and let any events run during which no socket
  joins that room (he stays offline). Let \<open>n\<close> be a
  row for \<open>r\<close> recorded during these events (its identifier is not below the counter at
  their start), and let \<open>r\<close> then connect on the socket \<open>sid\<close> at time \<open>now\<close>, the
  \<open>SELECT\<close> and the \<open>UPDATE\<close>s succeeding. Then no room emit of these events reached
  a socket; the connection handler emits \<open>n\<close> to \<open>sid\<close> exactly once; the rows it emits
  are in the order of their identifiers, which is the order of creation; it issues
  exactly one \<open>UPDATE\<close> for \<open>n\<close>, after which \<open>n\<close> is stored as delivered at \<open>now\<close>;
  and whatever events follow, reconnects of \<open>r\<close> included, no row with the identifier of
  \<open>n\<close> is emitted by a replay again.
\<close>

theorem offline_notifications_replayed_once:
  assumes "wf_db (db s0)"
    and "members (room r) (rooms s0) = []"
    and "run cfg verify evs s0 = (effs1, s1)"
    and "\<not> joins r effs1"
    and "n \<in> set (notifications (db s1))" and "next_id (db s0) \<le> n_id n" and "n_recipient_id n = r"
    and "on_connection sid r now True (\<lambda>i. True) s1 = (effs2, s2)"
    and "run cfg verify evs' s2 = (effs3, s3)"
  shows "live_receivers r effs1 = []
       \<and> count_list (emitted_to sid effs2) n = 1
       \<and> sorted_wrt (<) (map n_id (emitted_to sid effs2))
       \<and> count_list (marked effs2) (n_id n) = 1
       \<and> n\<lparr>n_delivered_at := Some now\<rparr> \<in> set (notifications (db s2))
       \<and> (\<forall>m\<in>set (emitted effs3). n_id m \<noteq> n_id n)"
proof -
  let ?sel = "select_undelivered r (db s1)"
  have fresh0: "\<forall>m\<in>set (notifications (db s0)).
      next_id (db s0) \<le> n_id m \<and> n_recipient_id m = r \<longrightarrow> n_delivered_at m = None"
    using assms(1) by (auto dest: wf_db_less)
  from run_fresh [OF assms(3) assms(1) order_refl fresh0 assms(4)]
  have w1: "wf_db (db s1)"
    and f1: "\<forall>m\<in>set (notifications (db s1)).
      next_id (db s0) \<le> n_id m \<and> n_recipient_id m = r \<longrightarrow> n_delivered_at m = None"
    by simp_all
  from f1 assms(5,6,7) have und: "n_delivered_at n = None" by simp
  with assms(5,7) have nsel: "n \<in> set ?sel" by (simp add: select_undelivered_def)
  from on_connection_cases [OF assms(8)]
  have d2: "db s2 = snd (replay sid now (\<lambda>i. True) ?sel (db s1))"
    and e2: "emitted_to sid effs2 = ?sel" and m2: "marked effs2 = map n_id ?sel"
    by simp_all
  have P1: "live_receivers r effs1 = []" by (rule run_rooms [OF assms(3) assms(2) assms(4)])
  from w1 have "distinct ?sel" by (simp add: select_undelivered_def wf_db_distinct)
  with nsel e2 have P2: "count_list (emitted_to sid effs2) n = 1" by (simp add: count_list_distinct)
  from w1 have "sorted_wrt (\<lambda>a b. n_id a < n_id b) (notifications (db s1))"
    by (simp add: wf_db_def sorted_wrt_map)
  then have "sorted_wrt (\<lambda>a b. n_id a < n_id b) ?sel"
    unfolding select_undelivered_def by (rule sorted_wrt_filter)
  with e2 have P3: "sorted_wrt (<) (map n_id (emitted_to sid effs2))" by (simp add: sorted_wrt_map)
  then have "distinct (map n_id ?sel)" using e2 by (simp add: strict_sorted_iff)
  with nsel m2 have P4: "count_list (marked effs2) (n_id n) = 1"
    by (simp add: count_list_distinct)
  from replay_marks_row [OF nsel, of "\<lambda>i. True" now sid] d2
  have P5: "n\<lparr>n_delivered_at := Some now\<rparr> \<in> set (notifications (db s2))" by simp
  from w1 d2 have w2: "wf_db (db s2)" by (simp add: wf_replay)
  from wf_db_less [OF w2 P5] have lt: "n_id n < next_id (db s2)" by simp
  have "n_delivered_at m \<noteq> None" if "m \<in> set (notifications (db s2))" "n_id m = n_id n" for m
  proof -
    from w2 that P5 have "m = n\<lparr>n_delivered_at := Some now\<rparr>"
      by (intro wf_db_ids [of "db s2"]) simp_all
    then show ?thesis by simp
  qed
  then have del: "\<forall>m\<in>set (notifications (db s2)). n_id m = n_id n \<longrightarrow> n_delivered_at m \<noteq> None"
    by blast
  from run_delivered [OF assms(9) w2 lt del]
  have P6: "\<forall>m\<in>set (emitted effs3). n_id m \<noteq> n_id n" .
  from P1 P2 P3 P4 P5 P6 show ?thesis by blast
qed


text \<open>
  C3, as the code has it. The \<open>UPDATE\<close> is unconditional: of two \<open>UPDATE\<close>s of one row
  the later one decides the delivery time. In a run of handlers that execute one after
  the other from a well-formed table, a row that is stored as delivered at some time
  is stored unchanged after the run: the replay issues its \<open>UPDATE\<close>s for rows its own
  \<open>SELECT\<close> has just returned as undelivered, and nothing else writes the column.
\<close>

theorem delivered_at_set_once_in_runs:
  "update_delivered i t2 (update_delivered i t1 d) = update_delivered i t2 d
   \<and> (wf_db (db s) \<and> m \<in> set (notifications (db s)) \<and> n_delivered_at m = Some t
      \<longrightarrow> m \<in> set (notifications (db (snd (run cfg verify evs s)))))"
proof (intro conjI impI)
  show "update_delivered i t2 (update_delivered i t1 d) = update_delivered i t2 d"
    by (simp add: update_delivered_def o_def if_distrib cong: if_cong)
next
  assume a: "wf_db (db s) \<and> m \<in> set (notifications (db s)) \<and> n_delivered_at m = Some t"
  obtain es s' where r: "run cfg verify evs s = (es, s')" by (cases "run cfg verify evs s")
  from a have "n_delivered_at m \<noteq> None \<or> \<not> joins (n_recipient_id m) es" by simp
  from run_keeps_row [OF r _ _ this] a r
  show "m \<in> set (notifications (db (snd (run cfg verify evs s))))" by simp
qed


subsection \<open>The example run\<close>

lemmas handler_defs =
  io_connect_def on_connection_eq rejections_def send_notification_def on_disconnect_def
  handle_http_def path_is_def is_upper_def
  route_def webhook_notify_def validationResult_def auth_middleware_def socketRateLimiter_def
  httpRateLimiter_def socket_key_def falsy_def toString_def isAlphanumeric_def is_alnum_char_def
  isLength_def trim_def is_space_def under_api_def select_undelivered_def update_delivered_def
  insert_notification_def update_connection_log_def room_def members_def example_verify_def
  default_config_def key_config_def init_def empty_db_def Let_def

lemma offline_run:
  "run key_config example_verify offline_events init =
     ([RoomEmit ''user_bob12345'' \<lparr>p_message = ''hi'', p_senderId = ''alice'', p_timestamp = 1000\<rparr> [],
       Query (InsertNotification ''alice'' ''bob12345'' ''hi'' (Some ''s1'')),
       Callback AckSuccess,
       RoomEmit ''user_bob12345''
         \<lparr>p_message = ''restart at 9'', p_senderId = ''system'', p_timestamp = 1500\<rparr> [],
       Query (InsertNotification ''system'' ''bob12345'' ''restart at 9'' None),
       Respond 200 BodySuccess],
      init\<lparr>db := \<lparr>notifications =
                     [row_hi,
                      \<lparr>n_id = 2, n_sender_id = ''system'', n_recipient_id = ''bob12345'',
                       n_message = ''restart at 9'', n_socket_id = None, n_created_at = 1500,
                       n_delivered_at = None\<rparr>],
                   connection_logs = [], next_id = 3\<rparr>\<rparr>)"
  by (simp add: offline_events_def send_hi_def row_hi_def handler_defs)


lemma offline_state_db:
  "db offline_state =
     \<lparr>notifications =
        [row_hi,
         \<lparr>n_id = 2, n_sender_id = ''system'', n_recipient_id = ''bob12345'',
          n_message = ''restart at 9'', n_socket_id = None, n_created_at = 1500,
          n_delivered_at = None\<rparr>],
      connection_logs = [], next_id = 3\<rparr>"
  by (simp add: offline_state_def offline_run)

lemma replayed_state_db:
  "db replayed_state =
     \<lparr>notifications =
        [row_hi\<lparr>n_delivered_at := Some 2000\<rparr>,
         \<lparr>n_id = 2, n_sender_id = ''system'', n_recipient_id = ''bob12345'',
          n_message = ''restart at 9'', n_socket_id = None, n_created_at = 1500,
          n_delivered_at = Some 2000\<rparr>],
      connection_logs = [], next_id = 3\<rparr>"
  by (simp add: replayed_state_def on_connection_eq rejections_def offline_state_db
      select_undelivered_def
      update_delivered_def row_hi_def Let_def)

text \<open>C1's theorem at the example: the row of the message \<open>hi\<close>.\<close>

theorem offline_notifications_replayed_once_witness:
  "live_receivers ''bob12345'' (fst (run key_config example_verify offline_events init)) = []
   \<and> count_list (emitted_to ''s2''
        (fst (on_connection ''s2'' ''bob12345'' 2000 True (\<lambda>i. True) offline_state))) row_hi = 1
   \<and> sorted_wrt (<) (map n_id (emitted_to ''s2''
        (fst (on_connection ''s2'' ''bob12345'' 2000 True (\<lambda>i. True) offline_state))))
   \<and> count_list (marked
        (fst (on_connection ''s2'' ''bob12345'' 2000 True (\<lambda>i. True) offline_state))) 1 = 1
   \<and> row_hi\<lparr>n_delivered_at := Some 2000\<rparr> \<in> set (notifications (db replayed_state))
   \<and> row_hi \<notin> set (emitted (fst (run key_config example_verify later_events replayed_state)))"
proof -
  let ?c = "on_connection ''s2'' ''bob12345'' 2000 True (\<lambda>i. True) offline_state"
  have h1: "wf_db (db init)" by (simp add: wf_db_def init_def empty_db_def)
  have h2: "members (room ''bob12345'') (rooms init) = []" by (simp add: init_def members_def)
  have h3: "run key_config example_verify offline_events init =
      (fst (run key_config example_verify offline_events init), offline_state)"
    by (simp add: offline_state_def)
  have h4: "\<not> joins ''bob12345'' (fst (run key_config example_verify offline_events init))"
    by (simp add: offline_run joins_def)
  have h5: "row_hi \<in> set (notifications (db offline_state))" by (simp add: offline_state_db)
  have h6: "next_id (db init) \<le> n_id row_hi" by (simp add: init_def empty_db_def row_hi_def)
  have h7: "n_recipient_id row_hi = ''bob12345''" by (simp add: row_hi_def)
  have h8: "?c = (fst ?c, replayed_state)" by (simp add: replayed_state_def)
  have h9: "run key_config example_verify later_events replayed_state =
      (fst (run key_config example_verify later_events replayed_state),
       snd (run key_config example_verify later_events replayed_state))" by simp
  note w = offline_notifications_replayed_once [OF h1 h2 h3 h4 h5 h6 h7 h8 h9]
  have i: "n_id row_hi = 1" by (simp add: row_hi_def)
  from w i show ?thesis by auto
qed

lemma offline_state_eq:
  "offline_state = init\<lparr>db := \<lparr>notifications = [row_hi, row_note], connection_logs = [], next_id = 3\<rparr>\<rparr>"
  by (simp add: offline_state_def offline_run row_note_def)

lemma race_effects_eq:
  "race_effects =
     [Join ''s2'' ''user_bob12345'', Query (SelectUndelivered ''bob12345''),
      Join ''s3'' ''user_bob12345'', Query (SelectUndelivered ''bob12345''),
      SocketEmit ''s2'' row_hi, Query (UpdateDelivered 1),
      SocketEmit ''s2'' row_note, Query (UpdateDelivered 2),
      SocketEmit ''s3'' row_hi, Query (UpdateDelivered 1),
      SocketEmit ''s3'' row_note, Query (UpdateDelivered 2)]"
  by (simp add: race_effects_def race_resume2_def race_resume1_def race_select2_def race_select1_def
      connection_select_def connection_resume_def rejections_def offline_state_eq
      select_undelivered_def update_delivered_def row_hi_def row_note_def room_def init_def Let_def)

text \<open>
  C1 as the claim has it fails. When two connections of the recipient interleave at the
  \<open>await\<close> of their \<open>SELECT\<close> (\<open>race_effects\<close>), each of them is sent both rows,
  so the row of \<open>hi\<close> is emitted twice and two \<open>UPDATE\<close>s are issued for it, the
  second overwriting the delivery time 2000 by 2100. A connection whose \<open>SELECT\<close> is
  rejected is sent nothing, the rows staying undelivered. And a row whose \<open>UPDATE\<close> is
  rejected has been emitted and stays stored as undelivered.
\<close>

theorem interleaved_connections_counterexample:
  "emitted_to ''s2'' race_effects = [row_hi, row_note]
   \<and> emitted_to ''s3'' race_effects = [row_hi, row_note]
   \<and> count_list (emitted race_effects) row_hi = 2
   \<and> count_list (marked race_effects) (n_id row_hi) = 2
   \<and> map n_delivered_at (notifications (db (snd race_resume1))) = [Some 2000, Some 2000]
   \<and> map n_delivered_at (notifications (db (snd race_resume2))) = [Some 2100, Some 2100]
   \<and> emitted_to ''s2'' (fst (on_connection ''s2'' ''bob12345'' 2000 False (\<lambda>i. True) offline_state)) = []
   \<and> notifications (db (snd (on_connection ''s2'' ''bob12345'' 2000 False (\<lambda>i. True) offline_state)))
       = [row_hi, row_note]
   \<and> emitted_to ''s2'' (fst (on_connection ''s2'' ''bob12345'' 2000 True (\<lambda>i. i \<noteq> 1) offline_state))
       = [row_hi, row_note]
   \<and> UnhandledRejection \<in> set (fst (on_connection ''s2'' ''bob12345'' 2000 True (\<lambda>i. i \<noteq> 1) offline_state))
   \<and> row_hi \<in> set (notifications (db (snd (on_connection ''s2'' ''bob12345'' 2000 True (\<lambda>i. i \<noteq> 1)
                                              offline_state))))"
proof -
  have d1: "map n_delivered_at (notifications (db (snd race_resume1))) = [Some 2000, Some 2000]"
    by (simp add: race_resume1_def race_select2_def race_select1_def
      connection_select_def connection_resume_def offline_state_eq
      select_undelivered_def update_delivered_def row_hi_def row_note_def init_def Let_def)
  have d2: "map n_delivered_at (notifications (db (snd race_resume2))) = [Some 2100, Some 2100]"
    by (simp add: race_resume2_def race_resume1_def race_select2_def race_select1_def
      connection_select_def connection_resume_def offline_state_eq
      select_undelivered_def update_delivered_def row_hi_def row_note_def init_def Let_def)
  have f: "emitted_to ''s2'' (fst (on_connection ''s2'' ''bob12345'' 2000 False (\<lambda>i. True) offline_state)) = []"
     "notifications (db (snd (on_connection ''s2'' ''bob12345'' 2000 False (\<lambda>i. True) offline_state)))
       = [row_hi, row_note]"
    by (simp_all add: on_connection_eq emitted_to_def offline_state_eq)
  have g: "emitted_to ''s2'' (fst (on_connection ''s2'' ''bob12345'' 2000 True (\<lambda>i. i \<noteq> 1) offline_state))
       = [row_hi, row_note]"
    "UnhandledRejection \<in> set (fst (on_connection ''s2'' ''bob12345'' 2000 True (\<lambda>i. i \<noteq> 1) offline_state))"
    "row_hi \<in> set (notifications (db (snd (on_connection ''s2'' ''bob12345'' 2000 True (\<lambda>i. i \<noteq> 1)
                                              offline_state))))"
    by (simp_all add: on_connection_eq emitted_to_def offline_state_eq rejections_def
        select_undelivered_def update_delivered_def row_hi_def row_note_def)
  have e: "emitted_to ''s2'' race_effects = [row_hi, row_note]"
    "emitted_to ''s3'' race_effects = [row_hi, row_note]"
    "count_list (emitted race_effects) row_hi = 2"
    "count_list (marked race_effects) (n_id row_hi) = 2"
    by (simp_all add: race_effects_eq emitted_to_def emitted_def marked_def)
       (simp_all add: row_hi_def row_note_def)
  from e d1 d2 f g show ?thesis by simp
qed


text \<open>C3's theorem at the example: the row delivered at 2000 is unchanged by the later events.\<close>

theorem delivered_at_set_once_in_runs_witness:
  "row_hi\<lparr>n_delivered_at := Some 2000\<rparr>
     \<in> set (notifications (db (snd (run key_config example_verify later_events replayed_state))))"
proof -
  have h: "wf_db (db replayed_state)
      \<and> row_hi\<lparr>n_delivered_at := Some 2000\<rparr> \<in> set (notifications (db replayed_state))
      \<and> n_delivered_at (row_hi\<lparr>n_delivered_at := Some 2000\<rparr>) = Some 2000"
    by (simp add: replayed_state_db wf_db_def row_hi_def)
  from delivered_at_set_once_in_runs [THEN conjunct2, rule_format, OF h]
  show ?thesis .
qed

text \<open>
  C3 as the claim has it fails: a second \<open>UPDATE\<close> of the delivered row 1 is no no-op, it
  moves the delivery time from 2000 to 3000. The connection handler itself does so when
  two connections of one user have both run their \<open>SELECT\<close> (each awaits it) before
  either runs its loop: the second loop works on rows the first has marked, emits them
  again and overwrites their delivery time.
\<close>

theorem mark_delivered_overwrites_counterexample:
  "update_delivered 1 3000 (update_delivered 1 2000 (db offline_state))
     \<noteq> update_delivered 1 2000 (db offline_state)
   \<and> map n_delivered_at (notifications (update_delivered 1 2000 (db offline_state)))
       = [Some 2000, None]
   \<and> map n_delivered_at
       (notifications (update_delivered 1 3000 (update_delivered 1 2000 (db offline_state))))
       = [Some 3000, None]
   \<and> map n_delivered_at
       (notifications (snd (replay ''s3'' 3000 (\<lambda>i. True) (select_undelivered ''bob12345'' (db offline_state))
         (snd (replay ''s2'' 2000 (\<lambda>i. True) (select_undelivered ''bob12345'' (db offline_state))
            (db offline_state))))))
       = [Some 3000, Some 3000]"
  by (simp add: offline_state_db update_delivered_def select_undelivered_def row_hi_def)

subsection \<open>Connection records\<close>

text \<open>
  C4 (the code departs from the claim). No statement of app.js inserts into
  \<open>connection_logs\<close>: a connection attempt, admitted or not, leaves the table as it
  was. The first admitted connection of a fresh server joins its room and runs the
  replay query, and the table is still empty: the live socket has no open record.
\<close>

theorem connection_opens_no_record:
  "connection_logs (db (snd (io_connect cfg verify hs now sel_ok upd_ok s))) = connection_logs (db s)
   \<and> fst (io_connect (default_config None) example_verify
            \<lparr>hs_socket_id = ''s1'', hs_token = Some ''tok-alice'', hs_userId = None\<rparr>
            1000 True (\<lambda>i. True) init)
       = [Join ''s1'' ''user_alice'', Query (SelectUndelivered ''alice'')]
   \<and> connection_logs (db (snd (io_connect (default_config None) example_verify
            \<lparr>hs_socket_id = ''s1'', hs_token = Some ''tok-alice'', hs_userId = None\<rparr>
            1000 True (\<lambda>i. True) init))) = []"
proof (intro conjI)
  show "connection_logs (db (snd (io_connect cfg verify hs now sel_ok upd_ok s))) = connection_logs (db s)"
    by (simp add: io_connect_def on_connection_eq Let_def replay_keeps_logs case_prod_unfold
        split: sum.splits verdict.splits)
qed (simp_all add: io_connect_def on_connection_eq rejections_def auth_middleware_def falsy_def
      example_verify_def socketRateLimiter_def socket_key_def init_def empty_db_def
      select_undelivered_def room_def Let_def default_config_def)

subsection \<open>The HTTP limiter and the webhook\<close>

text \<open>
  C7 (the code departs from the claim). The limiter is mounted under \<open>/api/\<close> and the
  webhook is registered at \<open>/webhook/notify\<close>: a request to that path goes to the
  routes with no limiter before them. An origin that has used up its window
  (the limiter itself answers 429 with \<open>retryAfter = 899\<close>) still has its webhook
  request handled: the push event is emitted, the row is inserted, the answer is 200,
  and \<open>httpLimits\<close> is not touched.
\<close>

theorem webhook_skips_http_limiter:
  "handle_http cfg now ins_ok (req\<lparr>req_path := [''webhook'', ''notify'']\<rparr>) s
     = route cfg now ins_ok (req\<lparr>req_path := [''webhook'', ''notify'']\<rparr>) s
   \<and> fst (httpRateLimiter (default_config (Some ''key'')) 1000 ''10.0.0.1''
          [''10.0.0.1'' \<mapsto> \<lparr>hl_count = 100, hl_resetTime = 900000\<rparr>])
     = TooMany429 too_many 899
   \<and> handle_http (default_config (Some ''key'')) 1000 True
        \<lparr>req_method = POST, req_path = [''webhook'', ''notify''], req_ip = ''10.0.0.1'',
         req_body = \<lparr>wb_recipientId = Some ''user1234'', wb_message = Some ''hi'',
                     wb_apiKey = Some ''key''\<rparr>\<rparr>
        (init\<lparr>httpLimits := [''10.0.0.1'' \<mapsto> \<lparr>hl_count = 100, hl_resetTime = 900000\<rparr>]\<rparr>)
     = ([RoomEmit ''user_user1234''
           \<lparr>p_message = ''hi'', p_senderId = ''system'', p_timestamp = 1000\<rparr> [],
         Query (InsertNotification ''system'' ''user1234'' ''hi'' None),
         Respond 200 BodySuccess],
        init\<lparr>httpLimits := [''10.0.0.1'' \<mapsto> \<lparr>hl_count = 100, hl_resetTime = 900000\<rparr>],
             db := \<lparr>notifications =
                      [\<lparr>n_id = 1, n_sender_id = ''system'', n_recipient_id = ''user1234'',
                        n_message = ''hi'', n_socket_id = None, n_created_at = 1000,
                        n_delivered_at = None\<rparr>],
                    connection_logs = [], next_id = 2\<rparr>\<rparr>)"
  by (simp add: httpRateLimiter_def handle_http_def under_api_def route_def path_is_def
      is_upper_def webhook_notify_def
      validationResult_def isAlphanumeric_def is_alnum_char_def isLength_def trim_def
      is_space_def toString_def default_config_def Let_def ceil_div1000_def init_def
      empty_db_def insert_notification_def room_def members_def)

subsection \<open>The order of emit and insert\<close>

text \<open>
  C8, as the code has it. A send that succeeds, live or through the webhook, performs
  exactly three effects in this order: the emit to the recipient's room, the
  \<open>INSERT\<close>, the positive answer. The emit precedes the ledger write.
\<close>

theorem emit_precedes_insert:
  "(Callback AckSuccess \<in> set (fst (send_notification sid uid now ins_ok dt s)) \<longrightarrow>
      (\<exists>r m. dt = Some \<lparr>sd_recipientId = Some r, sd_message = Some m\<rparr> \<and>
         fst (send_notification sid uid now ins_ok dt s) =
           [RoomEmit (room r) \<lparr>p_message = m, p_senderId = uid, p_timestamp = now\<rparr>
              (members (room r) (rooms s)),
            Query (InsertNotification uid r m (Some sid)),
            Callback AckSuccess]))
   \<and> (Respond 200 BodySuccess \<in> set (fst (webhook_notify cfg now ins_ok b s)) \<longrightarrow>
        fst (webhook_notify cfg now ins_ok b s) =
          [RoomEmit (room (toString (wb_recipientId b)))
             \<lparr>p_message = trim (toString (wb_message b)), p_senderId = ''system'',
              p_timestamp = now\<rparr>
             (members (room (toString (wb_recipientId b))) (rooms s)),
           Query (InsertNotification ''system'' (toString (wb_recipientId b))
                    (trim (toString (wb_message b))) None),
           Respond 200 BodySuccess])"
proof (intro conjI impI)
  assume a: "Callback AckSuccess \<in> set (fst (send_notification sid uid now ins_ok dt s))"
  show "\<exists>r m. dt = Some \<lparr>sd_recipientId = Some r, sd_message = Some m\<rparr> \<and>
         fst (send_notification sid uid now ins_ok dt s) =
           [RoomEmit (room r) \<lparr>p_message = m, p_senderId = uid, p_timestamp = now\<rparr>
              (members (room r) (rooms s)),
            Query (InsertNotification uid r m (Some sid)),
            Callback AckSuccess]"
  proof (cases dt)
    case None
    with a show ?thesis by (simp add: send_notification_def)
  next
    case (Some d)
    from a Some obtain r m where rm: "sd_recipientId d = Some r" "sd_message d = Some m"
      by (auto simp: send_notification_def falsy_def Let_def split: if_splits option.splits)
    then have "d = \<lparr>sd_recipientId = Some r, sd_message = Some m\<rparr>" by (cases d) simp
    with a Some show ?thesis
      by (auto simp: send_notification_def falsy_def Let_def split: if_splits)
  qed
next
  assume "Respond 200 BodySuccess \<in> set (fst (webhook_notify cfg now ins_ok b s))"
  then show "fst (webhook_notify cfg now ins_ok b s) =
          [RoomEmit (room (toString (wb_recipientId b)))
             \<lparr>p_message = trim (toString (wb_message b)), p_senderId = ''system'',
              p_timestamp = now\<rparr>
             (members (room (toString (wb_recipientId b))) (rooms s)),
           Query (InsertNotification ''system'' (toString (wb_recipientId b))
                    (trim (toString (wb_message b))) None),
           Respond 200 BodySuccess]"
    by (auto simp: webhook_notify_def Let_def split: if_splits)
qed

text \<open>The two implications of C8's theorem at a live send and at a webhook call.\<close>

theorem emit_precedes_insert_witness:
  "Callback AckSuccess \<in> set (fst (send_notification ''s1'' ''alice'' 1000 True
       (Some \<lparr>sd_recipientId = Some ''bob12345'', sd_message = Some ''hi''\<rparr>) init))
   \<and> fst (send_notification ''s1'' ''alice'' 1000 True
       (Some \<lparr>sd_recipientId = Some ''bob12345'', sd_message = Some ''hi''\<rparr>) init)
     = [RoomEmit (room ''bob12345'')
          \<lparr>p_message = ''hi'', p_senderId = ''alice'', p_timestamp = 1000\<rparr> [],
        Query (InsertNotification ''alice'' ''bob12345'' ''hi'' (Some ''s1'')),
        Callback AckSuccess]
   \<and> Respond 200 BodySuccess \<in> set (fst (webhook_notify (default_config (Some ''key'')) 1000 True
       \<lparr>wb_recipientId = Some ''bob12345'', wb_message = Some ''hi'', wb_apiKey = Some ''key''\<rparr>
       init))
   \<and> fst (webhook_notify (default_config (Some ''key'')) 1000 True
       \<lparr>wb_recipientId = Some ''bob12345'', wb_message = Some ''hi'', wb_apiKey = Some ''key''\<rparr>
       init)
     = [RoomEmit (room ''bob12345'')
          \<lparr>p_message = ''hi'', p_senderId = ''system'', p_timestamp = 1000\<rparr> [],
        Query (InsertNotification ''system'' ''bob12345'' ''hi'' None),
        Respond 200 BodySuccess]"
proof -
  have a: "Callback AckSuccess \<in> set (fst (send_notification ''s1'' ''alice'' 1000 True
       (Some \<lparr>sd_recipientId = Some ''bob12345'', sd_message = Some ''hi''\<rparr>) init))"
    by (simp add: send_notification_def falsy_def Let_def)
  have b: "Respond 200 BodySuccess \<in> set (fst (webhook_notify (default_config (Some ''key'')) 1000 True
       \<lparr>wb_recipientId = Some ''bob12345'', wb_message = Some ''hi'', wb_apiKey = Some ''key''\<rparr>
       init))"
    by (simp add: webhook_notify_def validationResult_def isAlphanumeric_def is_alnum_char_def
        isLength_def trim_def is_space_def toString_def default_config_def Let_def)
  from a b emit_precedes_insert [of "''s1''" "''alice''" 1000 True
       "Some \<lparr>sd_recipientId = Some ''bob12345'', sd_message = Some ''hi''\<rparr>" init
       "default_config (Some ''key'')"
       "\<lparr>wb_recipientId = Some ''bob12345'', wb_message = Some ''hi'', wb_apiKey = Some ''key''\<rparr>"]
  show ?thesis
    by (simp add: init_def members_def toString_def trim_def is_space_def)
qed

text \<open>
  C8 as the claim has it fails: in neither path does an emit follow the \<open>INSERT\<close>.
\<close>

theorem record_then_publish_counterexample:
  "\<not> record_then_publish
       (fst (send_notification ''s1'' ''alice'' 1000 True
               (Some \<lparr>sd_recipientId = Some ''bob12345'', sd_message = Some ''hi''\<rparr>) init))
   \<and> \<not> record_then_publish
       (fst (webhook_notify (default_config (Some ''key'')) 1000 True
               \<lparr>wb_recipientId = Some ''bob12345'', wb_message = Some ''hi'',
                wb_apiKey = Some ''key''\<rparr> init))"
  by (simp add: record_then_publish_def send_notification_def webhook_notify_def falsy_def
      validationResult_def isAlphanumeric_def is_alnum_char_def isLength_def trim_def
      is_space_def toString_def default_config_def Let_def)

subsection \<open>The two limiters inside one window\<close>

lemma ceil_div1000_bounds:
  assumes "0 \<le> x" "x \<le> 1000 * k"
  shows "0 \<le> ceil_div1000 x \<and> ceil_div1000 x \<le> k"
proof -
  have "(- x) div 1000 \<le> 0 div 1000" using assms(1) by (intro zdiv_mono1) simp_all
  moreover have "(- (1000 * k)) div 1000 \<le> (- x) div 1000"
    using assms(2) by (intro zdiv_mono1) simp_all
  moreover have "(- (1000 * k)) div 1000 = - k" by simp
  ultimately show ?thesis by (simp add: ceil_div1000_def)
qed

lemma http_run_length: "length (http_run cfg ip ts m) = length ts"
  by (induction ts arbitrary: m) (simp_all add: case_prod_unfold)

lemma socket_run_length: "length (socket_run cfg k ts m) = length ts"
  by (induction ts arbitrary: m) (simp_all add: case_prod_unfold)

lemma http_run_nth:
  "m ip = Some l \<Longrightarrow> \<forall>t\<in>set ts. t \<le> hl_resetTime l \<Longrightarrow> j < length ts \<Longrightarrow>
   http_run cfg ip ts m ! j =
     (if hl_count l + int j < http_max cfg then Next
      else TooMany429 too_many (ceil_div1000 (hl_resetTime l - ts ! j)))"
proof (induction ts arbitrary: m l j)
  case Nil
  then show ?case by simp
next
  case (Cons t ts)
  have t: "\<not> t > hl_resetTime l" using Cons.prems(2) by auto
  show ?case
  proof (cases "hl_count l \<ge> http_max cfg")
    case True
    then have st: "httpRateLimiter cfg t ip m =
        (TooMany429 too_many (ceil_div1000 (hl_resetTime l - t)), m)"
      using Cons.prems(1) t by (simp add: httpRateLimiter_def Let_def)
    show ?thesis
    proof (cases j)
      case 0
      with st True show ?thesis by simp
    next
      case (Suc j')
      with Cons.prems have "http_run cfg ip ts m ! j' =
        (if hl_count l + int j' < http_max cfg then Next
         else TooMany429 too_many (ceil_div1000 (hl_resetTime l - ts ! j')))"
        by (intro Cons.IH) auto
      with st True Suc show ?thesis by simp
    qed
  next
    case False
    let ?l' = "l\<lparr>hl_count := hl_count l + 1\<rparr>"
    from False have st: "httpRateLimiter cfg t ip m = (Next, m(ip \<mapsto> ?l'))"
      using Cons.prems(1) t by (simp add: httpRateLimiter_def Let_def)
    show ?thesis
    proof (cases j)
      case 0
      with st False show ?thesis by simp
    next
      case (Suc j')
      have "http_run cfg ip ts (m(ip \<mapsto> ?l')) ! j' =
        (if hl_count ?l' + int j' < http_max cfg then Next
         else TooMany429 too_many (ceil_div1000 (hl_resetTime ?l' - ts ! j')))"
        using Cons.prems Suc by (intro Cons.IH) auto
      with st Suc show ?thesis by (simp add: add.commute add.left_commute)
    qed
  qed
qed

lemma socket_run_nth:
  "m k = Some l \<Longrightarrow> \<forall>t\<in>set ts. t - sl_timestamp l \<le> socket_duration cfg * 1000 \<Longrightarrow>
   j < length ts \<Longrightarrow>
   socket_run cfg k ts m ! j =
     (if sl_count l + int j < socket_points cfg then Next else NextError too_many)"
proof (induction ts arbitrary: m l j)
  case Nil
  then show ?case by simp
next
  case (Cons t ts)
  have t: "\<not> t - sl_timestamp l > socket_duration cfg * 1000" using Cons.prems(2) by auto
  show ?case
  proof (cases "sl_count l \<ge> socket_points cfg")
    case True
    then have st: "socketRateLimiter cfg t k m = (NextError too_many, m)"
      using Cons.prems(1) t by (simp add: socketRateLimiter_def Let_def)
    show ?thesis
    proof (cases j)
      case 0
      with st True show ?thesis by simp
    next
      case (Suc j')
      with Cons.prems have "socket_run cfg k ts m ! j' =
        (if sl_count l + int j' < socket_points cfg then Next else NextError too_many)"
        by (intro Cons.IH) auto
      with st True Suc show ?thesis by simp
    qed
  next
    case False
    let ?l' = "l\<lparr>sl_count := sl_count l + 1\<rparr>"
    from False have st: "socketRateLimiter cfg t k m = (Next, m(k \<mapsto> ?l'))"
      using Cons.prems(1) t by (simp add: socketRateLimiter_def Let_def)
    show ?thesis
    proof (cases j)
      case 0
      with st False show ?thesis by simp
    next
      case (Suc j')
      have "socket_run cfg k ts (m(k \<mapsto> ?l')) ! j' =
        (if sl_count ?l' + int j' < socket_points cfg then Next else NextError too_many)"
        using Cons.prems Suc by (intro Cons.IH) auto
      with st Suc show ?thesis by (simp add: add.commute add.left_commute)
    qed
  qed
qed

lemma http_run_count:
  "m ip = Some l \<Longrightarrow> \<forall>t\<in>set ts. t \<le> hl_resetTime l \<Longrightarrow>
   length (filter (\<lambda>v. v = Next) (http_run cfg ip ts m)) =
     min (length ts) (nat (http_max cfg - hl_count l))"
proof (induction ts arbitrary: m l)
  case Nil
  then show ?case by simp
next
  case (Cons t ts)
  have t: "\<not> t > hl_resetTime l" using Cons.prems(2) by auto
  show ?case
  proof (cases "hl_count l \<ge> http_max cfg")
    case True
    then have st: "httpRateLimiter cfg t ip m =
        (TooMany429 too_many (ceil_div1000 (hl_resetTime l - t)), m)"
      using Cons.prems(1) t by (simp add: httpRateLimiter_def Let_def)
    have "length (filter (\<lambda>v. v = Next) (http_run cfg ip ts m)) =
        min (length ts) (nat (http_max cfg - hl_count l))"
      using Cons.prems by (intro Cons.IH) auto
    with st True show ?thesis by simp
  next
    case False
    let ?l' = "l\<lparr>hl_count := hl_count l + 1\<rparr>"
    from False have st: "httpRateLimiter cfg t ip m = (Next, m(ip \<mapsto> ?l'))"
      using Cons.prems(1) t by (simp add: httpRateLimiter_def Let_def)
    have "length (filter (\<lambda>v. v = Next) (http_run cfg ip ts (m(ip \<mapsto> ?l')))) =
        min (length ts) (nat (http_max cfg - hl_count ?l'))"
      using Cons.prems by (intro Cons.IH) auto
    with st False show ?thesis by simp
  qed
qed

lemma socket_run_count:
  "m k = Some l \<Longrightarrow> \<forall>t\<in>set ts. t - sl_timestamp l \<le> socket_duration cfg * 1000 \<Longrightarrow>
   length (filter (\<lambda>v. v = Next) (socket_run cfg k ts m)) =
     min (length ts) (nat (socket_points cfg - sl_count l))"
proof (induction ts arbitrary: m l)
  case Nil
  then show ?case by simp
next
  case (Cons t ts)
  have t: "\<not> t - sl_timestamp l > socket_duration cfg * 1000" using Cons.prems(2) by auto
  show ?case
  proof (cases "sl_count l \<ge> socket_points cfg")
    case True
    then have st: "socketRateLimiter cfg t k m = (NextError too_many, m)"
      using Cons.prems(1) t by (simp add: socketRateLimiter_def Let_def)
    have "length (filter (\<lambda>v. v = Next) (socket_run cfg k ts m)) =
        min (length ts) (nat (socket_points cfg - sl_count l))"
      using Cons.prems by (intro Cons.IH) auto
    with st True show ?thesis by simp
  next
    case False
    let ?l' = "l\<lparr>sl_count := sl_count l + 1\<rparr>"
    from False have st: "socketRateLimiter cfg t k m = (Next, m(k \<mapsto> ?l'))"
      using Cons.prems(1) t by (simp add: socketRateLimiter_def Let_def)
    have "length (filter (\<lambda>v. v = Next) (socket_run cfg k ts (m(k \<mapsto> ?l')))) =
        min (length ts) (nat (socket_points cfg - sl_count ?l'))"
      using Cons.prems by (intro Cons.IH) auto
    with st False show ?thesis by simp
  qed
qed

lemma http_first:
  "hm ip = None \<or> (\<exists>l. hm ip = Some l \<and> hl_resetTime l < t0) \<Longrightarrow>
   httpRateLimiter cfg t0 ip hm =
     (Next, hm(ip \<mapsto> \<lparr>hl_count = 1, hl_resetTime = t0 + http_window cfg * 60 * 1000\<rparr>))"
  by (auto simp: httpRateLimiter_def Let_def)

lemma socket_first:
  "sm k = None \<or> (\<exists>l. sm k = Some l \<and> socket_duration cfg * 1000 < u0 - sl_timestamp l) \<Longrightarrow>
   socketRateLimiter cfg u0 k sm = (Next, sm(k \<mapsto> \<lparr>sl_timestamp = u0, sl_count = 1\<rparr>))"
  by (auto simp: socketRateLimiter_def Let_def)

text \<open>
  C6, as the code has it. Let the ceiling be at least 1 and let the first request of a
  key open a window (the key has no entry, or its window has passed). Of the requests
  that follow inside the window, in either limiter, the first \<open>ceiling - 1\<close> are admitted
  and every later one is denied: exactly \<open>ceiling\<close> admissions. The HTTP limiter denies
  with a \<open>retryAfter\<close> between 0 and the window's length in seconds; the socket limiter
  denies with an error that carries the message only.
\<close>

theorem fixed_window_ceiling:
  assumes "1 \<le> http_max cfg" and "1 \<le> socket_points cfg"
    and "hm ip = None \<or> (\<exists>l. hm ip = Some l \<and> hl_resetTime l < t0)"
    and "sm k = None \<or> (\<exists>l. sm k = Some l \<and> socket_duration cfg * 1000 < u0 - sl_timestamp l)"
    and "\<forall>t\<in>set ts. t0 \<le> t \<and> t \<le> t0 + http_window cfg * 60 * 1000"
    and "\<forall>u\<in>set us. u0 \<le> u \<and> u \<le> u0 + socket_duration cfg * 1000"
  shows "length (filter (\<lambda>v. v = Next) (http_run cfg ip (t0 # ts) hm)) =
           min (Suc (length ts)) (nat (http_max cfg))
       \<and> (\<forall>i\<le>length ts.
            if int i < http_max cfg then http_run cfg ip (t0 # ts) hm ! i = Next
            else \<exists>r. http_run cfg ip (t0 # ts) hm ! i = TooMany429 too_many r \<and>
                     0 \<le> r \<and> r \<le> http_window cfg * 60)
       \<and> length (filter (\<lambda>v. v = Next) (socket_run cfg k (u0 # us) sm)) =
           min (Suc (length us)) (nat (socket_points cfg))
       \<and> (\<forall>i\<le>length us.
            if int i < socket_points cfg then socket_run cfg k (u0 # us) sm ! i = Next
            else socket_run cfg k (u0 # us) sm ! i = NextError too_many)"
proof (intro conjI allI impI)
  let ?R = "t0 + http_window cfg * 60 * 1000"
  let ?l = "\<lparr>hl_count = 1, hl_resetTime = ?R\<rparr>"
  let ?hm = "hm(ip \<mapsto> ?l)"
  have first: "httpRateLimiter cfg t0 ip hm = (Next, ?hm)" using assms(3) by (rule http_first)
  have inw: "\<forall>t\<in>set ts. t \<le> hl_resetTime ?l" using assms(5) by simp
  have "length (filter (\<lambda>v. v = Next) (http_run cfg ip ts ?hm)) =
      min (length ts) (nat (http_max cfg - hl_count ?l))"
    using inw by (intro http_run_count) simp_all
  with first assms(1)
  show "length (filter (\<lambda>v. v = Next) (http_run cfg ip (t0 # ts) hm)) =
           min (Suc (length ts)) (nat (http_max cfg))"
    by simp
  fix i assume i: "i \<le> length ts"
  show "if int i < http_max cfg then http_run cfg ip (t0 # ts) hm ! i = Next
        else \<exists>r. http_run cfg ip (t0 # ts) hm ! i = TooMany429 too_many r \<and>
                 0 \<le> r \<and> r \<le> http_window cfg * 60"
  proof (cases i)
    case 0
    with first assms(1) show ?thesis by simp
  next
    case (Suc j)
    with i have j: "j < length ts" by simp
    have nth: "http_run cfg ip ts ?hm ! j =
       (if hl_count ?l + int j < http_max cfg then Next
        else TooMany429 too_many (ceil_div1000 (hl_resetTime ?l - ts ! j)))"
      using inw j by (intro http_run_nth) simp_all
    have tj: "t0 \<le> ts ! j \<and> ts ! j \<le> ?R" using assms(5) j by simp
    then have "0 \<le> ceil_div1000 (?R - ts ! j) \<and> ceil_div1000 (?R - ts ! j) \<le> http_window cfg * 60"
      by (intro ceil_div1000_bounds) simp_all
    with nth first Suc show ?thesis by (simp add: add.commute)
  qed
next
  let ?l = "\<lparr>sl_timestamp = u0, sl_count = 1\<rparr>"
  let ?sm = "sm(k \<mapsto> ?l)"
  have first: "socketRateLimiter cfg u0 k sm = (Next, ?sm)" using assms(4) by (rule socket_first)
  have inw: "\<forall>t\<in>set us. t - sl_timestamp ?l \<le> socket_duration cfg * 1000" using assms(6) by auto
  have "length (filter (\<lambda>v. v = Next) (socket_run cfg k us ?sm)) =
      min (length us) (nat (socket_points cfg - sl_count ?l))"
    using inw by (intro socket_run_count) simp_all
  with first assms(2)
  show "length (filter (\<lambda>v. v = Next) (socket_run cfg k (u0 # us) sm)) =
           min (Suc (length us)) (nat (socket_points cfg))"
    by simp
  fix i assume i: "i \<le> length us"
  show "if int i < socket_points cfg then socket_run cfg k (u0 # us) sm ! i = Next
        else socket_run cfg k (u0 # us) sm ! i = NextError too_many"
  proof (cases i)
    case 0
    with first assms(2) show ?thesis by simp
  next
    case (Suc j)
    with i have j: "j < length us" by simp
    have nth: "socket_run cfg k us ?sm ! j =
       (if sl_count ?l + int j < socket_points cfg then Next else NextError too_many)"
      using inw j by (intro socket_run_nth) simp_all
    with first Suc show ?thesis by (simp add: add.commute)
  qed
qed

text \<open>C6's theorem with ceilings of 2: the third request of the window is denied.\<close>

theorem fixed_window_ceiling_witness:
  "length (filter (\<lambda>v. v = Next) (http_run small_config ''10.0.0.1'' [0, 1000, 900000] Map.empty)) = 2
   \<and> (\<exists>r. http_run small_config ''10.0.0.1'' [0, 1000, 900000] Map.empty ! 2 = TooMany429 too_many r
          \<and> 0 \<le> r \<and> r \<le> 900)
   \<and> length (filter (\<lambda>v. v = Next) (socket_run small_config ''alice'' [0, 1000, 60000] Map.empty)) = 2
   \<and> socket_run small_config ''alice'' [0, 1000, 60000] Map.empty ! 2 = NextError too_many"
proof -
  note c = fixed_window_ceiling [where cfg = small_config and hm = Map.empty and ip = "''10.0.0.1''"
      and ?t0.0 = 0 and ts = "[1000, 900000]" and sm = Map.empty and k = "''alice''" and ?u0.0 = 0
      and us = "[1000, 60000]"]
  have h: "1 \<le> http_max small_config" "1 \<le> socket_points small_config"
    "\<forall>t\<in>set [1000, 900000]. (0::int) \<le> t \<and> t \<le> 0 + http_window small_config * 60 * 1000"
    "\<forall>u\<in>set [1000, 60000]. (0::int) \<le> u \<and> u \<le> 0 + socket_duration small_config * 1000"
    by (simp_all add: small_config_def)
  note d = c [OF h(1) h(2) disjI1 [OF refl] disjI1 [OF refl] h(3) h(4)]
  note d1 = d [THEN conjunct1]
  note d2 = d [THEN conjunct2, THEN conjunct1, rule_format, of 2]
  note d3 = d [THEN conjunct2, THEN conjunct2, THEN conjunct1]
  note d4 = d [THEN conjunct2, THEN conjunct2, THEN conjunct2, rule_format, of 2]
  from d2 have a: "\<exists>r. http_run small_config ''10.0.0.1'' [0, 1000, 900000] Map.empty ! 2 = TooMany429 too_many r
          \<and> 0 \<le> r \<and> r \<le> 900"
    by (simp add: small_config_def)
  from d4 have b: "socket_run small_config ''alice'' [0, 1000, 60000] Map.empty ! 2 = NextError too_many"
    by (simp add: small_config_def)
  from d1 d3 a b show ?thesis by (simp add: small_config_def)
qed

text \<open>
  C6 as the claim has it fails: the eleventh connection attempt of a window is denied by
  the socket limiter with no \<open>retryAfter\<close> value; and with a ceiling below 1
  (\<open>HTTP_RATE_LIMIT_MAX=-1\<close>) the first request is admitted all the same.
\<close>

theorem socket_denial_counterexample:
  "socket_run (default_config None) ''alice'' [0, 1, 2, 3, 4, 5, 6, 7, 8, 9, 10] Map.empty ! 10
     = NextError too_many
   \<and> retryAfter (socket_run (default_config None) ''alice'' [0, 1, 2, 3, 4, 5, 6, 7, 8, 9, 10] Map.empty ! 10)
     = None
   \<and> http_run ((default_config None)\<lparr>http_max := - 1\<rparr>) ''10.0.0.1'' [0] Map.empty = [Next]"
  by (simp add: socketRateLimiter_def httpRateLimiter_def default_config_def retryAfter_def Let_def)


subsection \<open>The socket limiter and send requests\<close>

text \<open>
  C2, as the code has it. The handler of \<open>send_notification\<close> neither reads nor writes
  \<open>socketRateLimits\<close>: its effects are the same whatever the map holds, and it hands
  the map on as it was. The limiter runs in the handshake, after authentication: an
  attempt it denies is refused with the limiter's error and changes nothing.
\<close>

theorem limiter_gates_handshake_only:
  "send_notification sid uid now ins_ok dt (s\<lparr>socketRateLimits := m\<rparr>) =
     (fst (send_notification sid uid now ins_ok dt s),
      (snd (send_notification sid uid now ins_ok dt s))\<lparr>socketRateLimits := m\<rparr>)
   \<and> socketRateLimits (snd (send_notification sid uid now ins_ok dt s)) = socketRateLimits s
   \<and> (auth_middleware verify (hs_token hs) = Inr u \<and>
      fst (socketRateLimiter cfg t (socket_key (hs_userId hs) (hs_socket_id hs)) (socketRateLimits s))
        = NextError msg
      \<longrightarrow> io_connect cfg verify hs t sel_ok upd_ok s = ([ConnectError (hs_socket_id hs) msg], s))"
proof (intro conjI impI)
  show "send_notification sid uid now ins_ok dt (s\<lparr>socketRateLimits := m\<rparr>) =
     (fst (send_notification sid uid now ins_ok dt s),
      (snd (send_notification sid uid now ins_ok dt s))\<lparr>socketRateLimits := m\<rparr>)"
    by (simp add: send_notification_def Let_def split: option.splits)
  show "socketRateLimits (snd (send_notification sid uid now ins_ok dt s)) = socketRateLimits s"
    by (simp add: send_notification_def Let_def split: option.splits)
next
  assume a: "auth_middleware verify (hs_token hs) = Inr u \<and>
      fst (socketRateLimiter cfg t (socket_key (hs_userId hs) (hs_socket_id hs)) (socketRateLimits s))
        = NextError msg"
  then have "socketRateLimiter cfg t (socket_key (hs_userId hs) (hs_socket_id hs)) (socketRateLimits s)
     = (NextError msg, socketRateLimits s)"
    by (auto simp: socketRateLimiter_def Let_def split: option.splits if_splits)
  with a show "io_connect cfg verify hs t sel_ok upd_ok s = ([ConnectError (hs_socket_id hs) msg], s)"
    by (simp add: io_connect_def)
qed

text \<open>C2's theorem at a handshake of a user who has used up the window.\<close>

theorem limiter_gates_handshake_only_witness:
  "io_connect (default_config None) example_verify
     \<lparr>hs_socket_id = ''s2'', hs_token = Some ''tok-alice'', hs_userId = Some ''alice''\<rparr>
     2000 True (\<lambda>i. True) busy
   = ([ConnectError ''s2'' too_many], busy)"
proof -
  have h: "auth_middleware example_verify
       (hs_token \<lparr>hs_socket_id = ''s2'', hs_token = Some ''tok-alice'', hs_userId = Some ''alice''\<rparr>)
       = Inr ''alice'' \<and>
     fst (socketRateLimiter (default_config None) 2000
            (socket_key (hs_userId \<lparr>hs_socket_id = ''s2'', hs_token = Some ''tok-alice'', hs_userId = Some ''alice''\<rparr>)
               (hs_socket_id \<lparr>hs_socket_id = ''s2'', hs_token = Some ''tok-alice'', hs_userId = Some ''alice''\<rparr>))
            (socketRateLimits busy)) = NextError too_many"
    by (simp add: auth_middleware_def falsy_def example_verify_def socketRateLimiter_def
        socket_key_def default_config_def busy_def init_def Let_def)
  from limiter_gates_handshake_only [THEN conjunct2, THEN conjunct2, rule_format, OF h]
  show ?thesis by simp
qed

text \<open>
  C2 as the claim has it fails: the limiter denies \<open>alice\<close> at time 2000, and her send
  request at that time is published and recorded.
\<close>

theorem send_not_rate_limited_counterexample:
  "fst (socketRateLimiter (default_config None) 2000 ''alice'' (socketRateLimits busy))
     = NextError too_many
   \<and> send_notification ''s1'' ''alice'' 2000 True
       (Some \<lparr>sd_recipientId = Some ''bob12345'', sd_message = Some ''hi''\<rparr>) busy
     = ([RoomEmit ''user_bob12345''
           \<lparr>p_message = ''hi'', p_senderId = ''alice'', p_timestamp = 2000\<rparr> [],
         Query (InsertNotification ''alice'' ''bob12345'' ''hi'' (Some ''s1'')),
         Callback AckSuccess],
        busy\<lparr>db := \<lparr>notifications =
                      [\<lparr>n_id = 1, n_sender_id = ''alice'', n_recipient_id = ''bob12345'',
                        n_message = ''hi'', n_socket_id = Some ''s1'', n_created_at = 2000,
                        n_delivered_at = None\<rparr>],
                    connection_logs = [], next_id = 2\<rparr>\<rparr>)"
  by (simp add: socketRateLimiter_def send_notification_def falsy_def default_config_def
      busy_def init_def empty_db_def insert_notification_def room_def members_def Let_def)


subsection \<open>Eviction on disconnect\<close>

text \<open>
  C5 (the code departs from the claim). Three disconnects after which the connection's
  entry is still in \<open>socketRateLimits\<close>: the \<open>UPDATE\<close> of \<open>connection_logs\<close> fails, so
  the \<open>delete\<close> after it is skipped; the handshake carried no \<open>userId\<close>, so the entry's
  key is the socket id while the \<open>delete\<close> uses the user's id; the handshake's
  \<open>userId\<close> differs from the id in the token.
\<close>

theorem disconnect_keeps_limit_entry:
  "socketRateLimits
     (snd (on_disconnect ''s1'' ''alice'' 2000 False
        (snd (io_connect (default_config None) example_verify
                \<lparr>hs_socket_id = ''s1'', hs_token = Some ''tok-alice'', hs_userId = Some ''alice''\<rparr>
                1000 True (\<lambda>i. True) init)))) ''alice''
     = Some \<lparr>sl_timestamp = 1000, sl_count = 1\<rparr>
   \<and> socketRateLimits
     (snd (on_disconnect ''s1'' ''alice'' 2000 True
        (snd (io_connect (default_config None) example_verify
                \<lparr>hs_socket_id = ''s1'', hs_token = Some ''tok-alice'', hs_userId = None\<rparr>
                1000 True (\<lambda>i. True) init)))) ''s1''
     = Some \<lparr>sl_timestamp = 1000, sl_count = 1\<rparr>
   \<and> socketRateLimits
     (snd (on_disconnect ''s1'' ''alice'' 2000 True
        (snd (io_connect (default_config None) example_verify
                \<lparr>hs_socket_id = ''s1'', hs_token = Some ''tok-alice'', hs_userId = Some ''mallory''\<rparr>
                1000 True (\<lambda>i. True) init)))) ''mallory''
     = Some \<lparr>sl_timestamp = 1000, sl_count = 1\<rparr>"
  by (simp add: on_disconnect_def io_connect_def on_connection_eq rejections_def
      auth_middleware_def falsy_def
      example_verify_def socketRateLimiter_def socket_key_def init_def empty_db_def
      select_undelivered_def room_def Let_def default_config_def update_connection_log_def)


subsection \<open>Validation of the webhook\<close>

text \<open>
  C9, as the code has it. Take a request \<open>POST /webhook/notify\<close> whose fields are absent
  or strings. If its \<open>apiKey\<close>, read as a string (an absent one as the empty string), is
  not the configured key, or its \<open>recipientId\<close> is not alphanumeric or not 8 to 64
  characters long, or its \<open>message\<close> is absent or is longer than 500 characters after
  the white space at its two ends is trimmed, it is answered 400 with the list of
  validation errors; that is the handler's only effect (no emit, no statement), and the
  state, ledger included, is unchanged.
\<close>

theorem webhook_rejects_invalid:
  assumes "Some (toString (wb_apiKey b)) \<noteq> webhook_api_key cfg
         \<or> \<not> isAlphanumeric (toString (wb_recipientId b))
         \<or> \<not> isLength 8 (Some 64) (toString (wb_recipientId b))
         \<or> wb_message b = None
         \<or> \<not> isLength 0 (Some 500) (trim (toString (wb_message b)))"
  shows "validationResult cfg b \<noteq> [] \<and>
         handle_http cfg now ins_ok
           \<lparr>req_method = POST, req_path = [''webhook'', ''notify''], req_ip = ip, req_body = b\<rparr> s
         = ([Respond 400 (BodyErrors (validationResult cfg b))], s)"
proof -
  from assms have "validationResult cfg b \<noteq> []"
    by (auto simp: validationResult_def)
  then show ?thesis
    by (simp add: handle_http_def under_api_def route_def path_is_def is_upper_def
        webhook_notify_def Let_def)
qed

text \<open>C9's theorem at a request with a wrong \<open>apiKey\<close>.\<close>

theorem webhook_rejects_invalid_witness:
  "handle_http (default_config (Some ''key'')) 1000 True
     \<lparr>req_method = POST, req_path = [''webhook'', ''notify''], req_ip = ''10.0.0.1'',
      req_body = \<lparr>wb_recipientId = Some ''user1234'', wb_message = Some ''hi'',
                  wb_apiKey = Some ''wrong''\<rparr>\<rparr> init
   = ([Respond 400 (BodyErrors [''apiKey''])], init)"
proof -
  have h: "Some (toString (wb_apiKey \<lparr>wb_recipientId = Some ''user1234'', wb_message = Some ''hi'',
                  wb_apiKey = Some ''wrong''\<rparr>)) \<noteq> webhook_api_key (default_config (Some ''key''))"
    by (simp add: toString_def default_config_def)
  from webhook_rejects_invalid [OF disjI1 [OF h], of 1000 True "''10.0.0.1''" init]
  show ?thesis
    by (simp add: handle_http_def under_api_def route_def path_is_def is_upper_def
        webhook_notify_def Let_def
        validationResult_def isAlphanumeric_def is_alnum_char_def isLength_def trim_def
        is_space_def toString_def default_config_def)
qed

lemma dropWhile_replicate: "P a \<Longrightarrow> dropWhile P (replicate k a @ xs) = dropWhile P xs"
  by (induction k) simp_all

lemma dropWhile_replicate_not: "\<not> P a \<Longrightarrow> 0 < k \<Longrightarrow> dropWhile P (replicate k a @ xs) = replicate k a @ xs"
  by (cases k) simp_all

lemma trim_padded: "trim padded_message = replicate 500 (CHR ''a'')"
proof -
  have a: "\<not> is_space (CHR ''a'')" and s: "is_space (CHR '' '')" by (simp_all add: is_space_def)
  have "dropWhile is_space padded_message = padded_message"
    unfolding padded_message_def using a by (intro dropWhile_replicate_not) simp_all
  moreover have "rev padded_message = replicate 4 (CHR '' '') @ replicate 500 (CHR ''a'')"
    by (simp add: padded_message_def)
  moreover have "dropWhile is_space (replicate 4 (CHR '' '') @ replicate 500 (CHR ''a''))
      = dropWhile is_space (replicate 500 (CHR ''a''))"
    using s by (rule dropWhile_replicate)
  moreover have "dropWhile is_space (replicate 500 (CHR ''a'') @ []) = replicate 500 (CHR ''a'') @ []"
    using a by (intro dropWhile_replicate_not) simp_all
  ultimately show ?thesis by (simp add: trim_def)
qed

text \<open>
  C9 as the claim has it fails: the length of the message is checked after trimming, so
  a message of 504 characters, too long for the interface, is accepted when its last
  four are spaces: the push event is emitted and the row inserted with the 500 letters,
  and the answer is 200.
\<close>

theorem padded_message_accepted_counterexample:
  "length padded_message = 504
   \<and> handle_http key_config 1000 True
       \<lparr>req_method = POST, req_path = [''webhook'', ''notify''], req_ip = ''10.0.0.1'',
        req_body = \<lparr>wb_recipientId = Some ''bob12345'', wb_message = Some padded_message,
                    wb_apiKey = Some ''key''\<rparr>\<rparr> init
     = ([RoomEmit ''user_bob12345''
           \<lparr>p_message = replicate 500 (CHR ''a''), p_senderId = ''system'', p_timestamp = 1000\<rparr> [],
         Query (InsertNotification ''system'' ''bob12345'' (replicate 500 (CHR ''a'')) None),
         Respond 200 BodySuccess],
        init\<lparr>db := insert_notification ''system'' ''bob12345'' (replicate 500 (CHR ''a'')) None 1000
                     (db init)\<rparr>)"
proof -
  have l: "length padded_message = 504" by (simp add: padded_message_def)
  have v: "validationResult key_config
      \<lparr>wb_recipientId = Some ''bob12345'', wb_message = Some padded_message, wb_apiKey = Some ''key''\<rparr> = []"
    by (simp add: validationResult_def toString_def trim_padded isAlphanumeric_def is_alnum_char_def
        isLength_def key_config_def default_config_def)
  show ?thesis
    by (simp add: l handle_http_def under_api_def is_upper_def route_def path_is_def
        webhook_notify_def v Let_def toString_def trim_padded room_def members_def init_def)
qed

end
